theory Spec2Isabelle
  imports Main "HOL-Library.Word"
begin

section \<open>ylog: leveled logging with rotating files\<close>

text \<open>
  A shallow embedding of the Go package \<open>ylog\<close>. The package comes in several
  revisions that share one design. The rotating file logger with format flags and a
  settable size limit (\<open>RotateLogger\<close>, with \<open>NewRotateLogger\<close>, \<open>createFile\<close>,
  \<open>rotateFile\<close>, \<open>Output\<close> and the twelve leveled methods) is the one modelled in
  full; the header formatter \<open>formatHeader\<close>, the level type and the writer logger
  are modelled from the revision that has them, and of the package-level logger
  \<open>loggerT\<close> the write path (\<open>createFile\<close> and \<open>Output\<close>).

  Everything the code asks of the Go runtime and of the operating system (the clock,
  the call stack, the file system) is an explicit environment \<open>env\<close>, whose fields
  answer the calls; every call the code makes to the operating system is recorded, in
  order, as an \<open>event\<close>. The mutex is not modelled: the functions below are what one
  caller does inside the critical section.
\<close>

subsection \<open>Go values\<close>

text \<open>
  Go's \<open>error\<close> values; \<open>os.IsNotExist\<close> recognises the first. The last stands
  for the run-time panic of a call through a nil pointer, which ends the call.
\<close>

datatype error = ErrNotExist | ErrPermission | ErrNoSpace | ErrIO | ErrInvalid | PanicNilPointer

definition IsNotExist :: "error \<Rightarrow> bool" where
  "IsNotExist e = (e = ErrNotExist)"

text \<open>
  \<open>time.Time\<close>, read through its accessors. \<open>Year\<close> is a Go \<open>int\<close>; the other
  accessors return values in documented non-negative ranges.
\<close>

record time =
  Year :: int
  Month :: nat
  Day :: nat
  Hour :: nat
  Minute :: nat
  Second :: nat
  Nanosecond :: nat

type_synonym int32 = "32 word"
type_synonym int64 = "64 word"

subsection \<open>The verbs of \<open>fmt.Sprintf\<close> the package uses\<close>

definition digit_char :: "nat \<Rightarrow> char" where
  "digit_char d = ''0123456789'' ! d"

fun decimal :: "nat \<Rightarrow> string" where
  "decimal n = (if n < 10 then [digit_char n] else decimal (n div 10) @ [digit_char (n mod 10)])"

declare decimal.simps [simp del]

text \<open>\<open>%d\<close>: the decimal digits, after a minus sign for a negative value.\<close>

definition Sprintf_d :: "int \<Rightarrow> string" where
  "Sprintf_d i = (if i < 0 then CHR ''-'' # decimal (nat (- i)) else decimal (nat i))"

text \<open>
  \<open>%0wd\<close>: as \<open>%d\<close>, padded to at least \<open>w\<close> characters with zeros, which stand
  after the sign.
\<close>

definition Sprintf_0d :: "nat \<Rightarrow> int \<Rightarrow> string" where
  "Sprintf_0d w i =
     (if i < 0
      then CHR ''-'' # replicate (w - 1 - length (decimal (nat (- i)))) CHR ''0'' @ decimal (nat (- i))
      else replicate (w - length (decimal (nat i))) CHR ''0'' @ decimal (nat i))"

definition newline :: char where
  "newline = CHR 0x0A"

text \<open>
  \<open>fmt.Sprintln\<close> on operands that are already rendered: a space between operands
  and a newline at the end.
\<close>

fun Sprintln :: "string list \<Rightarrow> string" where
  "Sprintln [] = [newline]"
| "Sprintln [v] = v @ [newline]"
| "Sprintln (v # vs) = v @ '' '' @ Sprintln vs"

text \<open>\<open>strings.LastIndexByte\<close>: the index of the last occurrence, or \<open>-1\<close>.\<close>

fun LastIndexByte :: "string \<Rightarrow> char \<Rightarrow> int" where
  "LastIndexByte [] c = - 1"
| "LastIndexByte (x # xs) c =
     (let r = LastIndexByte xs c in if 0 \<le> r then r + 1 else if x = c then 0 else - 1)"

subsection \<open>Log levels\<close>

type_synonym LogLevel = int32

definition TRACE :: LogLevel where "TRACE = 0"
definition DEBUG :: LogLevel where "DEBUG = 1"
definition WARN :: LogLevel where "WARN = 2"
definition ERROR :: LogLevel where "ERROR = 3"
definition INFO :: LogLevel where "INFO = 4"
definition FATAL :: LogLevel where "FATAL = 5"

definition LogLevelName :: "LogLevel \<Rightarrow> string" where
  "LogLevelName level =
     (if level = TRACE then ''TRACE''
      else if level = DEBUG then ''DEBUG''
      else if level = WARN then ''WARN''
      else if level = ERROR then ''ERROR''
      else if level = INFO then ''INFO''
      else if level = FATAL then ''FATAL''
      else ''unknown'')"

definition LogLevelMap :: "string \<rightharpoonup> LogLevel" where
  "LogLevelMap = map_of
     [(''TRACE'', TRACE), (''DEBUG'', DEBUG), (''WARN'', WARN),
      (''ERROR'', ERROR), (''INFO'', INFO), (''FATAL'', FATAL)]"

definition levels :: "LogLevel set" where
  "levels = {TRACE, DEBUG, WARN, ERROR, INFO, FATAL}"

subsection \<open>The operating system and the Go runtime\<close>

text \<open>
  \<open>filepath.Join dir name\<close> names the file \<open>name\<close> of the directory \<open>dir\<close>; the
  model keeps the two parts and leaves the cleaned text of the path to the library.
\<close>

type_synonym path = "string \<times> string"

definition filepath_Join :: "string \<Rightarrow> string \<Rightarrow> path" where
  "filepath_Join dir name = (dir, name)"

datatype open_flag = O_CREATE | O_WRONLY | O_APPEND | O_TRUNC

text \<open>
  What the environment answers during one call of the package: the clock, the call
  stack (\<open>runtime.Caller\<close> followed by \<open>runtime.FuncForPC\<close>: file, line and
  function name, or \<open>None\<close> when the frame is not available), and each file system
  call, with \<open>None\<close> for a nil error. \<open>FileStat\<close> is the size \<open>f.Stat()\<close> reports
  for the open file, \<open>None\<close> when it returns an error, which is then \<open>StatError\<close>;
  \<open>FileWrite\<close> is the \<open>(n, err)\<close> of \<open>f.Write\<close>, \<open>OutWrite\<close> the \<open>(n, err)\<close> of
  the \<open>io.Writer\<close> of a writer logger, \<open>BufWrite\<close> the \<open>(n, err)\<close> of the
  \<open>bufio.Writer\<close> on the open file of the package-level logger.
\<close>

record env =
  Now :: time
  Caller :: "int \<Rightarrow> (string \<times> int \<times> string) option"
  MkdirAll :: "string \<Rightarrow> error option"
  Stat :: "path \<Rightarrow> error option"
  OpenFile :: "path \<Rightarrow> open_flag set \<Rightarrow> error option"
  FileStat :: "path \<Rightarrow> int64 option"
  FileWrite :: "path \<Rightarrow> string \<Rightarrow> nat \<times> error option"
  OutWrite :: "string \<Rightarrow> nat \<times> error option"
  StatError :: "path \<Rightarrow> error"
  BufWrite :: "path \<Rightarrow> string \<Rightarrow> nat \<times> error option"

text \<open>The calls made to the operating system, in the order the code makes them.\<close>

datatype event =
    EvMkdirAll string
  | EvStat path
  | EvOpenFile path "open_flag set"
  | EvFileStat path
  | EvClose path
  | EvWrite path string
  | EvOutWrite string
  | EvExit int
  | EvFlush path
  | EvBufWrite path string

subsection \<open>The header formatter\<close>

text \<open>
  \<open>formatHeader\<close> appends the prefix \<open>YYYYMMDD HH:MM:SS.NNNNNN|FILE:LINE|FUNC|\<close> to
  the buffer; the buffer is passed and returned.
\<close>

definition formatHeader :: "string \<Rightarrow> time \<Rightarrow> string \<Rightarrow> int \<Rightarrow> string \<Rightarrow> string" where
  "formatHeader buf t file line fn =
     (let buf = buf @ (Sprintf_0d 4 (Year t) @ Sprintf_0d 2 (int (Month t)) @ Sprintf_0d 2 (int (Day t)));
          buf = buf @ ('' '' @ Sprintf_0d 2 (int (Hour t)) @ '':'' @ Sprintf_0d 2 (int (Minute t)) @ '':'' @
                       Sprintf_0d 2 (int (Second t)) @ ''.'' @ Sprintf_0d 6 (int (Nanosecond t div 1000)) @ ''|'');
          offset = LastIndexByte file CHR ''/'';
          buf = buf @ drop (nat (offset + 1)) file;
          buf = buf @ '':'';
          buf = buf @ Sprintf_d line;
          buf = buf @ ''|'';
          buf = buf @ fn;
          buf = buf @ ''|''
      in buf)"

text \<open>
  The rotating logger below passes its format flags to a six-argument
  \<open>formatHeader\<close> and starts with the flags \<open>LdefaultFlags\<close>; the source file that
  declares these two is not available, so they are parameters of the model.
\<close>

record flagged =
  LdefaultFlags :: int
  formatHeaderFlags :: "string \<Rightarrow> int \<Rightarrow> time \<Rightarrow> string \<Rightarrow> int \<Rightarrow> string \<Rightarrow> string"

subsection \<open>The rotating file logger\<close>

definition DEFAULT_BUFFER_SIZE :: nat where
  "DEFAULT_BUFFER_SIZE = 4096"

definition DEFAULT_LOG_FILE_SIZE :: int64 where
  "DEFAULT_LOG_FILE_SIZE = 512 * 1024 * 1024"

text \<open>
  The fields of the struct. \<open>f\<close> is the open file, named by the path it was opened
  at, \<open>None\<close> for nil. \<open>buf\<close> holds the bytes of the buffer (its capacity is not
  modelled).
\<close>

record RotateLogger =
  logDir :: string
  level :: LogLevel
  logSizeLimit :: int64
  flags :: int
  buf :: string
  f :: "path option"
  fname :: string
  nbytes :: int64
  fid :: int32

definition getLogFileName :: "time \<Rightarrow> int32 \<Rightarrow> string" where
  "getLogFileName t ident =
     (let fname = Sprintf_0d 4 (Year t) @ Sprintf_0d 2 (int (Month t)) @ Sprintf_0d 2 (int (Day t)) @
                  Sprintf_0d 2 (int (Hour t)) @ ''.log''
      in if 0 < sint ident then fname @ (''.'' @ Sprintf_d (sint ident)) else fname)"

definition create_append :: "open_flag set" where
  "create_append = {O_CREATE, O_WRONLY, O_APPEND}"

definition createFile :: "env \<Rightarrow> RotateLogger \<Rightarrow> RotateLogger \<times> error option \<times> event list" where
  "createFile e l =
     (let fileName = (if 0 < sint (fid l) then fname l @ (''.'' @ Sprintf_d (sint (fid l))) else fname l);
          filePath = filepath_Join (logDir l) fileName
      in case OpenFile e filePath create_append of
           Some err \<Rightarrow> (l\<lparr>f := None\<rparr>, Some err, [EvOpenFile filePath create_append])
         | None \<Rightarrow>
             (case FileStat e filePath of
                Some sz \<Rightarrow>
                  (l\<lparr>f := Some filePath, nbytes := sz\<rparr>, None,
                   [EvOpenFile filePath create_append, EvFileStat filePath])
              | None \<Rightarrow>
                  (l\<lparr>f := Some filePath\<rparr>, None,
                   [EvOpenFile filePath create_append, EvFileStat filePath])))"

definition rotateFile :: "env \<Rightarrow> time \<Rightarrow> RotateLogger \<Rightarrow> RotateLogger \<times> error option \<times> event list" where
  "rotateFile e now l =
     (let currentFileName = getLogFileName now 0;
          (l, needCreateFile) =
            (if fname l \<noteq> currentFileName then (l\<lparr>fname := currentFileName, fid := 0\<rparr>, True)
             else if 0 < sint (logSizeLimit l) \<and> sint (logSizeLimit l) \<le> sint (nbytes l)
               then (l\<lparr>fid := fid l + 1\<rparr>, True)
             else if f l = None then (l, True)
             else (l, False))
      in if needCreateFile
         then (let (l, closed) =
                     (case f l of
                        Some h \<Rightarrow> (l\<lparr>nbytes := 0, f := None\<rparr>, [EvClose h])
                      | None \<Rightarrow> (l, []));
                   (l, err, opened) = createFile e l
               in (l, err, closed @ opened))
         else (l, None, []))"

definition SetLogSizeLimit :: "int64 \<Rightarrow> RotateLogger \<Rightarrow> RotateLogger" where
  "SetLogSizeLimit limit l = l\<lparr>logSizeLimit := limit\<rparr>"

definition SetLogLevel :: "LogLevel \<Rightarrow> RotateLogger \<Rightarrow> RotateLogger" where
  "SetLogLevel lv l = l\<lparr>level := lv\<rparr>"

definition LogLevel :: "RotateLogger \<Rightarrow> LogLevel" where
  "LogLevel l = level l"

text \<open>Appending a line terminator unless the message ends in one.\<close>

definition terminated :: "string \<Rightarrow> string \<Rightarrow> string" where
  "terminated b s = (if length s = 0 \<or> s ! (length s - 1) \<noteq> newline then b @ [newline] else b)"

text \<open>
  \<open>Output\<close>: the time and the caller are read first; a rotation error is returned
  at once; otherwise the buffer is emptied, filled with header and message, and
  written in one call, whose byte count is added to \<open>nbytes\<close>. A write on a nil file
  returns \<open>os.ErrInvalid\<close>.
\<close>

definition Output ::
  "flagged \<Rightarrow> env \<Rightarrow> int \<Rightarrow> string \<Rightarrow> RotateLogger \<Rightarrow> RotateLogger \<times> error option \<times> event list" where
  "Output fm e skipdepth s l =
     (let now = Now e;
          (file, line, fn) =
            (case Caller e skipdepth of
               None \<Rightarrow> (''????'', 0, ''unknown'')
             | Some (file, line, fn) \<Rightarrow> (file, line, fn));
          (l, err, rotated) = rotateFile e now l
      in case err of
           Some err \<Rightarrow> (l, Some err, rotated)
         | None \<Rightarrow>
             (let b = [];
                  b = formatHeaderFlags fm b (flags l) now file line fn;
                  b = b @ s;
                  b = terminated b s;
                  l = l\<lparr>buf := b\<rparr>
              in case f l of
                   None \<Rightarrow> (l, Some ErrInvalid, rotated)
                 | Some h \<Rightarrow>
                     (let (nn, err) = FileWrite e h b;
                          l = l\<lparr>nbytes := nbytes l + of_nat nn\<rparr>
                      in (l, err, rotated @ [EvWrite h b]))))"

text \<open>
  The leveled methods. The \<open>f\<close> variants take the text \<open>fmt.Sprintf\<close> made of the
  format and its operands, the others the rendered operands, which \<open>fmt.Sprintln\<close>
  joins. \<open>os.Exit 1\<close> is the event \<open>EvExit 1\<close>, after which nothing follows.
\<close>

definition Fatalf :: "flagged \<Rightarrow> env \<Rightarrow> string \<Rightarrow> RotateLogger \<Rightarrow> RotateLogger \<times> event list" where
  "Fatalf fm e formatted l =
     (let (l, err, ev) = Output fm e 2 (''FATAL|'' @ formatted) l in (l, ev @ [EvExit 1]))"

definition Fatal :: "flagged \<Rightarrow> env \<Rightarrow> string list \<Rightarrow> RotateLogger \<Rightarrow> RotateLogger \<times> event list" where
  "Fatal fm e v l =
     (let (l, err, ev) = Output fm e 2 (''FATAL|'' @ Sprintln v) l in (l, ev @ [EvExit 1]))"

definition Infof :: "flagged \<Rightarrow> env \<Rightarrow> string \<Rightarrow> RotateLogger \<Rightarrow> RotateLogger \<times> event list" where
  "Infof fm e formatted l =
     (let (l, err, ev) = Output fm e 2 (''INFO|'' @ formatted) l in (l, ev))"

definition Info :: "flagged \<Rightarrow> env \<Rightarrow> string list \<Rightarrow> RotateLogger \<Rightarrow> RotateLogger \<times> event list" where
  "Info fm e v l =
     (let (l, err, ev) = Output fm e 2 (''INFO|'' @ Sprintln v) l in (l, ev))"

definition Errorf :: "flagged \<Rightarrow> env \<Rightarrow> string \<Rightarrow> RotateLogger \<Rightarrow> RotateLogger \<times> event list" where
  "Errorf fm e formatted l =
     (if sint (LogLevel l) \<le> sint ERROR
      then (let (l, err, ev) = Output fm e 2 (''ERROR|'' @ formatted) l in (l, ev))
      else (l, []))"

definition Error :: "flagged \<Rightarrow> env \<Rightarrow> string list \<Rightarrow> RotateLogger \<Rightarrow> RotateLogger \<times> event list" where
  "Error fm e v l =
     (if sint (LogLevel l) \<le> sint ERROR
      then (let (l, err, ev) = Output fm e 2 (''ERROR|'' @ Sprintln v) l in (l, ev))
      else (l, []))"

definition Warnf :: "flagged \<Rightarrow> env \<Rightarrow> string \<Rightarrow> RotateLogger \<Rightarrow> RotateLogger \<times> event list" where
  "Warnf fm e formatted l =
     (if sint (LogLevel l) \<le> sint WARN
      then (let (l, err, ev) = Output fm e 2 (''WARN|'' @ formatted) l in (l, ev))
      else (l, []))"

definition Warn :: "flagged \<Rightarrow> env \<Rightarrow> string list \<Rightarrow> RotateLogger \<Rightarrow> RotateLogger \<times> event list" where
  "Warn fm e v l =
     (if sint (LogLevel l) \<le> sint WARN
      then (let (l, err, ev) = Output fm e 2 (''WARN|'' @ Sprintln v) l in (l, ev))
      else (l, []))"

definition Tracef :: "flagged \<Rightarrow> env \<Rightarrow> string \<Rightarrow> RotateLogger \<Rightarrow> RotateLogger \<times> event list" where
  "Tracef fm e formatted l =
     (if sint (LogLevel l) \<le> sint TRACE
      then (let (l, err, ev) = Output fm e 2 (''TRACE|'' @ formatted) l in (l, ev))
      else (l, []))"

definition Trace :: "flagged \<Rightarrow> env \<Rightarrow> string list \<Rightarrow> RotateLogger \<Rightarrow> RotateLogger \<times> event list" where
  "Trace fm e v l =
     (if sint (LogLevel l) \<le> sint TRACE
      then (let (l, err, ev) = Output fm e 2 (''TRACE|'' @ Sprintln v) l in (l, ev))
      else (l, []))"

definition Debugf :: "flagged \<Rightarrow> env \<Rightarrow> string \<Rightarrow> RotateLogger \<Rightarrow> RotateLogger \<times> event list" where
  "Debugf fm e formatted l =
     (if sint (LogLevel l) \<le> sint DEBUG
      then (let (l, err, ev) = Output fm e 2 (''DEBUG|'' @ formatted) l in (l, ev))
      else (l, []))"

definition Debug :: "flagged \<Rightarrow> env \<Rightarrow> string list \<Rightarrow> RotateLogger \<Rightarrow> RotateLogger \<times> event list" where
  "Debug fm e v l =
     (if sint (LogLevel l) \<le> sint DEBUG
      then (let (l, err, ev) = Output fm e 2 (''DEBUG|'' @ Sprintln v) l in (l, ev))
      else (l, []))"

text \<open>
  The constructor. Its loop \<open>for i := 1; i < 100; i++\<close> asks for the file of each
  sequence id in turn and counts in \<open>fid\<close> the ones that exist, up to the first that
  does not.
\<close>

function NewRotateLogger_loop ::
  "env \<Rightarrow> time \<Rightarrow> int \<Rightarrow> RotateLogger \<Rightarrow> RotateLogger \<times> error option \<times> event list" where
  "NewRotateLogger_loop e now i l =
     (if i < 100
      then (let filePath = filepath_Join (logDir l) (getLogFileName now (word_of_int i))
            in case Stat e filePath of
                 None \<Rightarrow>
                   (case NewRotateLogger_loop e now (i + 1) (l\<lparr>fid := fid l + 1\<rparr>) of
                      (l', err, ev) \<Rightarrow> (l', err, EvStat filePath # ev))
               | Some err \<Rightarrow>
                   if IsNotExist err then (l, None, [EvStat filePath])
                   else (l, Some err, [EvStat filePath]))
      else (l, None, []))"
  by pat_completeness auto
termination
  by (relation "measure (\<lambda>(e, now, i, l). nat (100 - i))") auto

declare NewRotateLogger_loop.simps [simp del]

definition NewRotateLogger ::
  "flagged \<Rightarrow> env \<Rightarrow> string \<Rightarrow> LogLevel \<Rightarrow> RotateLogger option \<times> error option \<times> event list" where
  "NewRotateLogger fm e dir lv =
     (let l = \<lparr>logDir = dir, level = lv, logSizeLimit = DEFAULT_LOG_FILE_SIZE,
               flags = LdefaultFlags fm, buf = [], f = None, fname = [], nbytes = 0, fid = 0\<rparr>
      in case MkdirAll e dir of
           Some err \<Rightarrow> (None, Some err, [EvMkdirAll dir])
         | None \<Rightarrow>
             (let now = Now e;
                  l = l\<lparr>fname := getLogFileName now 0\<rparr>;
                  l = l\<lparr>fid := 0\<rparr>;
                  (l, err, scanned) = NewRotateLogger_loop e now 1 l
              in case err of
                   Some err \<Rightarrow> (None, Some err, EvMkdirAll dir # scanned)
                 | None \<Rightarrow>
                     (let (l, err, opened) = createFile e l
                      in case err of
                           Some err \<Rightarrow> (None, Some err, EvMkdirAll dir # scanned @ opened)
                         | None \<Rightarrow> (Some l, None, EvMkdirAll dir # scanned @ opened))))"

subsection \<open>The writer logger\<close>

text \<open>The logger on an \<open>io.Writer\<close>: the same record, with no rotation.\<close>

record WriterLogger =
  wlevel :: LogLevel
  wbuf :: string

definition WriterLogger_Output ::
  "env \<Rightarrow> int \<Rightarrow> string \<Rightarrow> WriterLogger \<Rightarrow> WriterLogger \<times> error option \<times> event list" where
  "WriterLogger_Output e skipdepth s l =
     (let now = Now e;
          (file, line, fn) =
            (case Caller e skipdepth of
               None \<Rightarrow> (''????'', 0, ''unknown'')
             | Some (file, line, fn) \<Rightarrow> (file, line, fn));
          b = [];
          b = formatHeader b now file line fn;
          b = b @ s;
          b = terminated b s;
          l = l\<lparr>wbuf := b\<rparr>;
          (nn, err) = OutWrite e b
      in (l, err, [EvOutWrite b]))"

subsection \<open>The package-level logger\<close>

text \<open>
  The logger behind the package-level functions, \<open>loggerT\<close>, writes through a
  \<open>bufio.Writer\<close> on its file. Its fields carry the suffix \<open>T\<close>; \<open>fT\<close> and \<open>outT\<close>
  name the open file and the writer on it by the path of the file. \<open>logSizeT\<close> is in
  kilobytes.
\<close>

record loggerT =
  levelT :: LogLevel
  logDirT :: string
  logSizeT :: int64
  flushPeriodT :: int
  bufT :: string
  outT :: "path option"
  fT :: "path option"
  fnameT :: string
  nbytesT :: int64
  fidT :: int32

text \<open>Go's division of integers, which rounds towards zero.\<close>

definition quo :: "int \<Rightarrow> int \<Rightarrow> int" where
  "quo a b = (if (a < 0) = (b < 0) then \<bar>a\<bar> div \<bar>b\<bar> else - (\<bar>a\<bar> div \<bar>b\<bar>))"

text \<open>
  \<open>createFile\<close> of \<open>loggerT\<close>. It takes the directory from the package's one
  logger, which is its receiver. The result \<open>err\<close> is a named one, which the
  statement \<open>stat, err := l.f.Stat()\<close> assigns: an error of \<open>Stat\<close> is returned.
  The header of \<open>loggerT\<close> is made by a method with the body of \<open>formatHeader\<close>.
\<close>

definition loggerT_createFile ::
  "env \<Rightarrow> string \<Rightarrow> loggerT \<Rightarrow> loggerT \<times> error option \<times> event list" where
  "loggerT_createFile e name l =
     (let closed = (case fT l of Some h \<Rightarrow> [EvFlush h, EvClose h] | None \<Rightarrow> []);
          (l, logPath) =
            (if fnameT l \<noteq> name
             then (l\<lparr>fidT := 0, fnameT := name\<rparr>, filepath_Join (logDirT l) name)
             else (l\<lparr>fidT := fidT l + 1\<rparr>,
                   filepath_Join (logDirT l) (name @ (''.'' @ Sprintf_d (sint (fidT l + 1))))))
      in case OpenFile e logPath create_append of
           Some err \<Rightarrow>
             (l\<lparr>fT := None, outT := None\<rparr>, Some err, closed @ [EvOpenFile logPath create_append])
         | None \<Rightarrow>
             (let l = l\<lparr>fT := Some logPath, outT := Some logPath\<rparr>
              in case FileStat e logPath of
                   None \<Rightarrow>
                     (l\<lparr>nbytesT := 0\<rparr>, Some (StatError e logPath),
                      closed @ [EvOpenFile logPath create_append, EvFileStat logPath])
                 | Some sz \<Rightarrow>
                     (l\<lparr>nbytesT := sz\<rparr>, None,
                      closed @ [EvOpenFile logPath create_append, EvFileStat logPath])))"

text \<open>
  \<open>Output\<close> of \<open>loggerT\<close>: the record is made first; a file is created when none
  is open, when the hour has changed, or when the counter with the record would pass
  the limit; the count the write reports is dropped and the length of the record is
  added to \<open>nbytes\<close>. A write through a nil writer panics.
\<close>

definition loggerT_Output ::
  "env \<Rightarrow> int \<Rightarrow> string \<Rightarrow> loggerT \<Rightarrow> loggerT \<times> error option \<times> event list" where
  "loggerT_Output e skipdepth s l =
     (let (file, line, fn) =
            (case Caller e skipdepth of
               None \<Rightarrow> (''????'', 0, ''unknown'')
             | Some (file, line, fn) \<Rightarrow> (file, line, fn));
          now = Now e;
          b = [];
          b = formatHeader b now file line fn;
          b = b @ s;
          b = terminated b s;
          l = l\<lparr>bufT := b\<rparr>;
          name = Sprintf_0d 4 (Year now) @ Sprintf_0d 2 (int (Month now)) @ Sprintf_0d 2 (int (Day now)) @
                 Sprintf_0d 2 (int (Hour now)) @ ''.log'';
          (l, err, created) =
            (if fT l = None \<or> fnameT l \<noteq> name \<or>
                (0 < sint (logSizeT l) \<and>
                 sint (logSizeT l) < quo (sint (nbytesT l + of_nat (length b))) 1024)
             then loggerT_createFile e name l
             else (l, None, []))
      in case err of
           Some err \<Rightarrow> (l, Some err, created)
         | None \<Rightarrow>
             (case outT l of
                None \<Rightarrow> (l, Some PanicNilPointer, created)
              | Some h \<Rightarrow>
                  (let (nn, err) = BufWrite e h b;
                       l = l\<lparr>nbytesT := nbytesT l + of_nat (length b)\<rparr>
                   in (l, err, created @ [EvBufWrite h b]))))"

subsection \<open>Notions the statements use\<close>

text \<open>A run of \<open>Output\<close> calls on one logger, each with the environment it meets.\<close>

fun Outputs :: "flagged \<Rightarrow> (env \<times> int \<times> string) list \<Rightarrow> RotateLogger \<Rightarrow> RotateLogger \<times> event list" where
  "Outputs fm [] l = (l, [])"
| "Outputs fm ((e, skipdepth, s) # calls) l =
     (case Output fm e skipdepth s l of
        (l1, err, ev) \<Rightarrow> (case Outputs fm calls l1 of (l2, evs) \<Rightarrow> (l2, ev @ evs)))"

text \<open>The bucket key of a time: the name of the bucket's first file.\<close>

definition bucket_key :: "time \<Rightarrow> string" where
  "bucket_key t = getLogFileName t 0"

text \<open>
  The file of a bucket key and a sequence id, in the directory \<open>dir\<close>: the key itself
  for sequence 0, the key with the suffix \<open>.N\<close> for a sequence \<open>N > 0\<close>.
\<close>

definition segment :: "string \<Rightarrow> string \<Rightarrow> int32 \<Rightarrow> path" where
  "segment dir key seq = (dir, if 0 < sint seq then key @ ''.'' @ Sprintf_d (sint seq) else key)"

text \<open>
  The candidate file of sequence id \<open>j\<close> in the bucket of a time, and the length of
  the unbroken run of candidates \<open>1, 2, ...\<close> below 100 that exist.
\<close>

definition candidate :: "string \<Rightarrow> time \<Rightarrow> nat \<Rightarrow> path" where
  "candidate dir now j = segment dir (bucket_key now) (of_nat j)"

definition leading_existing :: "env \<Rightarrow> string \<Rightarrow> time \<Rightarrow> nat" where
  "leading_existing e dir now =
     length (takeWhile (\<lambda>j. Stat e (candidate dir now j) = None) [1..<100])"

text \<open>The file a logger's bucket key and sequence id point at.\<close>

definition target :: "RotateLogger \<Rightarrow> path" where
  "target l = segment (logDir l) (fname l) (fid l)"

text \<open>The size limit is configured (positive) and the byte counter has reached it.\<close>

definition limit_reached :: "RotateLogger \<Rightarrow> bool" where
  "limit_reached l = (0 < sint (logSizeLimit l) \<and> sint (logSizeLimit l) \<le> sint (nbytes l))"

text \<open>
  A logger without an open file has counted no bytes: true of every logger the
  constructor returns and kept by every method.
\<close>

definition closed_counts_nothing :: "RotateLogger \<Rightarrow> bool" where
  "closed_counts_nothing l = (f l = None \<longrightarrow> nbytes l = 0)"

text \<open>
  What \<open>rotateFile\<close> does once it has decided to create a file: the open file, if
  any, is closed and the counter reset; then \<open>createFile\<close> opens the target.
\<close>

definition reopen :: "env \<Rightarrow> RotateLogger \<Rightarrow> RotateLogger \<times> error option \<times> event list" where
  "reopen e l =
     (case createFile e (case f l of Some h \<Rightarrow> l\<lparr>nbytes := 0, f := None\<rparr> | None \<Rightarrow> l) of
        (l', err, ev) \<Rightarrow> (l', err, (case f l of Some h \<Rightarrow> [EvClose h] | None \<Rightarrow> []) @ ev))"

text \<open>The caller's file, line and function, or the placeholders.\<close>

definition caller_or_placeholder :: "env \<Rightarrow> int \<Rightarrow> string \<times> int \<times> string" where
  "caller_or_placeholder e skipdepth =
     (case Caller e skipdepth of None \<Rightarrow> (''????'', 0, ''unknown'') | Some c \<Rightarrow> c)"

text \<open>The parts of what a call returns: the logger, the error and the events.\<close>

definition state_after :: "'s \<times> 'r \<times> event list \<Rightarrow> 's" where
  "state_after r = fst r"

definition returned :: "'s \<times> 'r \<times> event list \<Rightarrow> 'r" where
  "returned r = fst (snd r)"

definition events_of :: "'s \<times> 'r \<times> event list \<Rightarrow> event list" where
  "events_of r = snd (snd r)"

text \<open>
  The twelve leveled calls with their arguments; the method each one is, the
  severity and the text of its record, whether it is one of the filtered calls, and
  whether it is one of the fatal pair.
\<close>

datatype leveled =
    Tracef_call string | Trace_call "string list"
  | Debugf_call string | Debug_call "string list"
  | Warnf_call string | Warn_call "string list"
  | Errorf_call string | Error_call "string list"
  | Infof_call string | Info_call "string list"
  | Fatalf_call string | Fatal_call "string list"

fun call :: "flagged \<Rightarrow> env \<Rightarrow> leveled \<Rightarrow> RotateLogger \<Rightarrow> RotateLogger \<times> event list" where
  "call fm e (Tracef_call m) l = Tracef fm e m l"
| "call fm e (Trace_call v) l = Trace fm e v l"
| "call fm e (Debugf_call m) l = Debugf fm e m l"
| "call fm e (Debug_call v) l = Debug fm e v l"
| "call fm e (Warnf_call m) l = Warnf fm e m l"
| "call fm e (Warn_call v) l = Warn fm e v l"
| "call fm e (Errorf_call m) l = Errorf fm e m l"
| "call fm e (Error_call v) l = Error fm e v l"
| "call fm e (Infof_call m) l = Infof fm e m l"
| "call fm e (Info_call v) l = Info fm e v l"
| "call fm e (Fatalf_call m) l = Fatalf fm e m l"
| "call fm e (Fatal_call v) l = Fatal fm e v l"

fun severity :: "leveled \<Rightarrow> LogLevel" where
  "severity (Tracef_call m) = TRACE"
| "severity (Trace_call v) = TRACE"
| "severity (Debugf_call m) = DEBUG"
| "severity (Debug_call v) = DEBUG"
| "severity (Warnf_call m) = WARN"
| "severity (Warn_call v) = WARN"
| "severity (Errorf_call m) = ERROR"
| "severity (Error_call v) = ERROR"
| "severity (Infof_call m) = INFO"
| "severity (Info_call v) = INFO"
| "severity (Fatalf_call m) = FATAL"
| "severity (Fatal_call v) = FATAL"

fun record_text :: "leveled \<Rightarrow> string" where
  "record_text (Tracef_call m) = ''TRACE|'' @ m"
| "record_text (Trace_call v) = ''TRACE|'' @ Sprintln v"
| "record_text (Debugf_call m) = ''DEBUG|'' @ m"
| "record_text (Debug_call v) = ''DEBUG|'' @ Sprintln v"
| "record_text (Warnf_call m) = ''WARN|'' @ m"
| "record_text (Warn_call v) = ''WARN|'' @ Sprintln v"
| "record_text (Errorf_call m) = ''ERROR|'' @ m"
| "record_text (Error_call v) = ''ERROR|'' @ Sprintln v"
| "record_text (Infof_call m) = ''INFO|'' @ m"
| "record_text (Info_call v) = ''INFO|'' @ Sprintln v"
| "record_text (Fatalf_call m) = ''FATAL|'' @ m"
| "record_text (Fatal_call v) = ''FATAL|'' @ Sprintln v"

fun filtered :: "leveled \<Rightarrow> bool" where
  "filtered (Infof_call m) = False"
| "filtered (Info_call v) = False"
| "filtered (Fatalf_call m) = False"
| "filtered (Fatal_call v) = False"
| "filtered c = True"

fun fatal :: "leveled \<Rightarrow> bool" where
  "fatal (Fatalf_call m) = True"
| "fatal (Fatal_call v) = True"
| "fatal c = False"

text \<open>The header of a record: what the formatter makes of an empty buffer.\<close>

definition header_of :: "flagged \<Rightarrow> env \<Rightarrow> int \<Rightarrow> int \<Rightarrow> string" where
  "header_of fm e skipdepth fl =
     (case caller_or_placeholder e skipdepth of
        (file, line, fn) \<Rightarrow> formatHeaderFlags fm [] fl (Now e) file line fn)"

text \<open>
  A number written with at least \<open>w\<close> digits: its decimal digits after as many
  zeros as it takes to fill the width. The number a text of digits stands for.
\<close>

definition zero_padded :: "nat \<Rightarrow> nat \<Rightarrow> string" where
  "zero_padded w n = replicate (w - length (decimal n)) CHR ''0'' @ decimal n"

definition digit_value :: "char \<Rightarrow> nat" where
  "digit_value c = of_char c - 48"

definition decimal_value :: "string \<Rightarrow> nat" where
  "decimal_value s = foldl (\<lambda>a c. 10 * a + digit_value c) 0 s"

text \<open>The text after the last \<open>/\<close> of a path, all of it if it has none.\<close>

definition last_segment :: "string \<Rightarrow> string" where
  "last_segment file = rev (takeWhile (\<lambda>c. c \<noteq> CHR ''/'') (rev file))"

text \<open>The date and time of a header.\<close>

definition stamp :: "time \<Rightarrow> string" where
  "stamp t =
     Sprintf_0d 4 (Year t) @ zero_padded 2 (Month t) @ zero_padded 2 (Day t) @ '' '' @
     zero_padded 2 (Hour t) @ '':'' @ zero_padded 2 (Minute t) @ '':'' @ zero_padded 2 (Second t) @
     ''.'' @ zero_padded 6 (Nanosecond t div 1000) @ ''|''"

text \<open>The header of a writer logger's record.\<close>

definition writer_header :: "env \<Rightarrow> int \<Rightarrow> string" where
  "writer_header e skipdepth =
     (case caller_or_placeholder e skipdepth of
        (file, line, fn) \<Rightarrow> formatHeader [] (Now e) file line fn)"

text \<open>
  The line terminator a message needs: one if the message is empty or does not end
  in one, none otherwise.
\<close>

definition line_end :: "string \<Rightarrow> string" where
  "line_end s = (if s = [] \<or> last s \<noteq> newline then [newline] else [])"

text \<open>The number of line terminators a text ends in.\<close>

definition trailing_newlines :: "string \<Rightarrow> nat" where
  "trailing_newlines s = length (takeWhile (\<lambda>c. c = newline) (rev s))"

text \<open>The files a list of events opens, and the buffers it writes.\<close>

fun opened_files :: "event list \<Rightarrow> path list" where
  "opened_files [] = []"
| "opened_files (EvOpenFile p m # ev) = p # opened_files ev"
| "opened_files (x # ev) = opened_files ev"

fun written :: "event list \<Rightarrow> string list" where
  "written [] = []"
| "written (EvWrite h b # ev) = b # written ev"
| "written (EvOutWrite b # ev) = b # written ev"
| "written (EvBufWrite h b # ev) = b # written ev"
| "written (x # ev) = written ev"

subsection \<open>Example inputs\<close>

text \<open>
  A time in the hour 13 of 3 November 2026 and one in the next hour; a caller; an
  environment in which every call succeeds and every write is complete, one in
  which no file can be opened, and one whose writes stop after three bytes with an
  error; a formatter that ignores the flags.
\<close>

definition time_13 :: time where
  "time_13 = \<lparr>Year = 2026, Month = 11, Day = 3, Hour = 13, Minute = 5, Second = 9, Nanosecond = 123456789\<rparr>"

definition time_14 :: time where
  "time_14 = \<lparr>Year = 2026, Month = 11, Day = 3, Hour = 14, Minute = 0, Second = 0, Nanosecond = 999\<rparr>"

definition env_ok :: "time \<Rightarrow> env" where
  "env_ok t = \<lparr>Now = t, Caller = (\<lambda>d. Some (''/src/app/main.go'', 42, ''main.main'')),
     MkdirAll = (\<lambda>d. None), Stat = (\<lambda>p. Some ErrNotExist), OpenFile = (\<lambda>p m. None),
     FileStat = (\<lambda>p. Some 0), FileWrite = (\<lambda>p b. (length b, None)),
     OutWrite = (\<lambda>b. (length b, None)), StatError = (\<lambda>p. ErrIO),
     BufWrite = (\<lambda>p b. (length b, None))\<rparr>"

definition env_no_open :: "time \<Rightarrow> env" where
  "env_no_open t = (env_ok t)\<lparr>OpenFile := (\<lambda>p m. Some ErrPermission)\<rparr>"

definition env_short_write :: "time \<Rightarrow> env" where
  "env_short_write t = (env_ok t)\<lparr>FileWrite := (\<lambda>p b. (3, Some ErrNoSpace)),
     BufWrite := (\<lambda>p b. (3, Some ErrNoSpace))\<rparr>"

definition env_no_caller :: "time \<Rightarrow> env" where
  "env_no_caller t = (env_ok t)\<lparr>Caller := (\<lambda>d. None)\<rparr>"

text \<open>
  A directory in which the files of sequence ids 1 and 3 of the bucket exist and the
  one of sequence id 2 does not, and one in which the file of every sequence id exists.
\<close>

definition env_gap :: env where
  "env_gap = (env_ok time_13)\<lparr>
     Stat := (\<lambda>p. if snd p = ''2026110313.log.2'' then Some ErrNotExist else None),
     FileStat := (\<lambda>p. Some 7)\<rparr>"

definition env_crowded :: env where
  "env_crowded = (env_ok time_13)\<lparr>Stat := (\<lambda>p. None), FileStat := (\<lambda>p. Some 7)\<rparr>"

definition plain :: flagged where
  "plain = \<lparr>LdefaultFlags = 0, formatHeaderFlags = (\<lambda>b fl. formatHeader b)\<rparr>"

text \<open>A logger in the bucket of \<open>time_13\<close>, with its file open.\<close>

definition logger_13 :: RotateLogger where
  "logger_13 = \<lparr>logDir = ''/var/log'', level = TRACE, logSizeLimit = 100, flags = 0, buf = [],
     f = Some (''/var/log'', ''2026110313.log''), fname = ''2026110313.log'', nbytes = 10, fid = 0\<rparr>"

text \<open>The same logger with its size limit reached, and with no file open.\<close>

definition logger_13_full :: RotateLogger where
  "logger_13_full = logger_13\<lparr>nbytes := 100\<rparr>"

definition logger_13_closed :: RotateLogger where
  "logger_13_closed = logger_13\<lparr>f := None, nbytes := 0\<rparr>"

text \<open>The full logger at the largest sequence id an \<open>int32\<close> holds.\<close>

definition logger_13_last :: RotateLogger where
  "logger_13_last = logger_13_full\<lparr>fid := 2147483647, f := Some (''/var/log'', ''2026110313.log.2147483647'')\<rparr>"

text \<open>
  The step of \<open>Output\<close> of \<open>loggerT\<close> that creates a file when one is needed for the
  record \<open>b\<close>, and a logger of that kind in the bucket of \<open>time_13\<close>, its file open.
\<close>

definition loggerT_roll ::
  "env \<Rightarrow> string \<Rightarrow> loggerT \<Rightarrow> loggerT \<times> error option \<times> event list" where
  "loggerT_roll e b l =
     (if fT l = None \<or> fnameT l \<noteq> bucket_key (Now e) \<or>
         (0 < sint (logSizeT l) \<and>
          sint (logSizeT l) < quo (sint (nbytesT l + of_nat (length b))) 1024)
      then loggerT_createFile e (bucket_key (Now e)) l
      else (l, None, []))"

definition global_13 :: loggerT where
  "global_13 = \<lparr>levelT = 0, logDirT = ''/var/log'', logSizeT = 524288, flushPeriodT = 5, bufT = [],
     outT = Some (''/var/log'', ''2026110313.log''), fT = Some (''/var/log'', ''2026110313.log''),
     fnameT = ''2026110313.log'', nbytesT = 10, fidT = 0\<rparr>"

section \<open>Properties\<close>

subsection \<open>Opening and rotating\<close>

lemma createFile_fails:
  "OpenFile e (target l) create_append = Some err \<Longrightarrow>
   createFile e l = (l\<lparr>f := None\<rparr>, Some err, [EvOpenFile (target l) create_append])"
  by (simp add: createFile_def target_def segment_def filepath_Join_def Let_def)

lemma createFile_opens:
  "OpenFile e (target l) create_append = None \<Longrightarrow>
   createFile e l =
     (l\<lparr>f := Some (target l), nbytes := (case FileStat e (target l) of Some sz \<Rightarrow> sz | None \<Rightarrow> nbytes l)\<rparr>,
      None, [EvOpenFile (target l) create_append, EvFileStat (target l)])"
  by (simp add: createFile_def target_def segment_def filepath_Join_def Let_def split: option.splits)

lemma rotateFile_new_bucket:
  "bucket_key now \<noteq> fname l \<Longrightarrow>
   rotateFile e now l = reopen e (l\<lparr>fname := bucket_key now, fid := 0\<rparr>)"
  by (auto simp: rotateFile_def reopen_def bucket_key_def Let_def split: option.splits prod.splits)

lemma rotateFile_next_sequence:
  "bucket_key now = fname l \<Longrightarrow> limit_reached l \<Longrightarrow>
   rotateFile e now l = reopen e (l\<lparr>fid := fid l + 1\<rparr>)"
  by (auto simp: rotateFile_def reopen_def bucket_key_def limit_reached_def Let_def split: option.splits prod.splits)

lemma rotateFile_no_file:
  "bucket_key now = fname l \<Longrightarrow> \<not> limit_reached l \<Longrightarrow> f l = None \<Longrightarrow>
   rotateFile e now l = reopen e l"
  by (auto simp: rotateFile_def reopen_def bucket_key_def limit_reached_def Let_def split: option.splits prod.splits)

lemma rotateFile_keep:
  "bucket_key now = fname l \<Longrightarrow> \<not> limit_reached l \<Longrightarrow> f l \<noteq> None \<Longrightarrow>
   rotateFile e now l = (l, None, [])"
  by (auto simp: rotateFile_def bucket_key_def limit_reached_def Let_def split: option.splits prod.splits)

lemma target_frame [simp]:
  "target (l\<lparr>nbytes := n\<rparr>) = target l"
  "target (l\<lparr>f := h\<rparr>) = target l"
  "target (l\<lparr>buf := b\<rparr>) = target l"
  by (simp_all add: target_def)

lemma reopen_fails:
  "OpenFile e (target l) create_append = Some err \<Longrightarrow>
   reopen e l =
     ((case f l of Some h \<Rightarrow> l\<lparr>nbytes := 0, f := None\<rparr> | None \<Rightarrow> l), Some err,
      (case f l of Some h \<Rightarrow> [EvClose h] | None \<Rightarrow> []) @ [EvOpenFile (target l) create_append])"
  by (cases "f l") (simp_all add: reopen_def createFile_fails)

lemma reopen_opens:
  "OpenFile e (target l) create_append = None \<Longrightarrow>
   reopen e l =
     (l\<lparr>f := Some (target l),
        nbytes := (case FileStat e (target l) of Some sz \<Rightarrow> sz
                   | None \<Rightarrow> (case f l of Some h \<Rightarrow> 0 | None \<Rightarrow> nbytes l))\<rparr>,
      None,
      (case f l of Some h \<Rightarrow> [EvClose h] | None \<Rightarrow> []) @
      [EvOpenFile (target l) create_append, EvFileStat (target l)])"
  by (cases "f l") (simp_all add: reopen_def createFile_opens split: option.splits)

lemma line_end_terminated: "terminated b s = b @ line_end s"
  by (cases "s = []") (simp_all add: terminated_def line_end_def last_conv_nth)

lemma rotateFile_cases:
  obtains (new_bucket) "bucket_key now \<noteq> fname l"
      "rotateFile e now l = reopen e (l\<lparr>fname := bucket_key now, fid := 0\<rparr>)"
    | (next_sequence) "bucket_key now = fname l" "limit_reached l"
      "rotateFile e now l = reopen e (l\<lparr>fid := fid l + 1\<rparr>)"
    | (no_file) "bucket_key now = fname l" "\<not> limit_reached l" "f l = None"
      "rotateFile e now l = reopen e l"
    | (keep) "bucket_key now = fname l" "\<not> limit_reached l" "f l \<noteq> None"
      "rotateFile e now l = (l, None, [])"
  using rotateFile_new_bucket rotateFile_next_sequence rotateFile_no_file rotateFile_keep
  by blast

lemma reopen_result:
  assumes "reopen e l = (l1, r, ev)"
  shows "logDir l1 = logDir l \<and> level l1 = level l \<and> logSizeLimit l1 = logSizeLimit l \<and>
         flags l1 = flags l \<and> buf l1 = buf l \<and> fname l1 = fname l \<and> fid l1 = fid l \<and>
         opened_files ev = [target l] \<and> written ev = [] \<and>
         r = OpenFile e (target l) create_append \<and>
         (r = None \<longrightarrow> f l1 = Some (target l)) \<and>
         (r \<noteq> None \<longrightarrow> f l1 = None \<and> last ev = EvOpenFile (target l) create_append \<and>
            (closed_counts_nothing l \<longrightarrow> nbytes l1 = 0))"
proof (cases "OpenFile e (target l) create_append")
  case None
  from reopen_opens [OF None] assms show ?thesis
    by (auto simp: None split: option.splits)
next
  case (Some err)
  from reopen_fails [OF Some] assms show ?thesis
    by (auto simp: Some closed_counts_nothing_def split: option.splits)
qed

lemma closed_counts_nothing_frame [simp]:
  "closed_counts_nothing (l\<lparr>fname := k\<rparr>) = closed_counts_nothing l"
  "closed_counts_nothing (l\<lparr>fid := i\<rparr>) = closed_counts_nothing l"
  "closed_counts_nothing (l\<lparr>buf := b\<rparr>) = closed_counts_nothing l"
  "closed_counts_nothing (l\<lparr>logSizeLimit := n\<rparr>) = closed_counts_nothing l"
  "closed_counts_nothing (l\<lparr>level := v\<rparr>) = closed_counts_nothing l"
  by (simp_all add: closed_counts_nothing_def)

lemma rotateFile_result:
  assumes "rotateFile e now l = (l1, r, ev)"
  shows "logDir l1 = logDir l \<and> level l1 = level l \<and> logSizeLimit l1 = logSizeLimit l \<and>
         flags l1 = flags l \<and> buf l1 = buf l \<and> written ev = [] \<and>
         (opened_files ev = [] \<or> opened_files ev = [target l1]) \<and>
         (r = None \<longrightarrow> f l1 \<noteq> None) \<and>
         (r \<noteq> None \<longrightarrow> f l1 = None \<and> last ev = EvOpenFile (target l1) create_append \<and>
            opened_files ev = [target l1] \<and>
            OpenFile e (target l1) create_append = r \<and> (closed_counts_nothing l \<longrightarrow> nbytes l1 = 0))"
proof (cases rule: rotateFile_cases [of now l e])
  case new_bucket
  with assms have "reopen e (l\<lparr>fname := bucket_key now, fid := 0\<rparr>) = (l1, r, ev)" by simp
  from reopen_result [OF this] show ?thesis by (simp add: target_def)
next
  case next_sequence
  with assms have "reopen e (l\<lparr>fid := fid l + 1\<rparr>) = (l1, r, ev)" by simp
  from reopen_result [OF this] show ?thesis by (simp add: target_def)
next
  case no_file
  with assms have "reopen e l = (l1, r, ev)" by simp
  from reopen_result [OF this] show ?thesis by (simp add: target_def)
next
  case keep
  with assms show ?thesis by auto
qed

lemma Output_rotate_fails:
  "rotateFile e (Now e) l = (l1, Some err, ev) \<Longrightarrow> Output fm e d s l = (l1, Some err, ev)"
  by (simp add: Output_def Let_def split: prod.splits option.splits)

lemma Output_writes:
  assumes "rotateFile e (Now e) l = (l1, None, ev)" and "f l1 = Some h"
  shows "Output fm e d s l =
     (l1\<lparr>buf := header_of fm e d (flags l1) @ s @ line_end s,
         nbytes := nbytes l1 + of_nat (fst (FileWrite e h (header_of fm e d (flags l1) @ s @ line_end s)))\<rparr>,
      snd (FileWrite e h (header_of fm e d (flags l1) @ s @ line_end s)),
      ev @ [EvWrite h (header_of fm e d (flags l1) @ s @ line_end s)])"
  using assms
  by (simp add: Output_def Let_def header_of_def caller_or_placeholder_def line_end_terminated
      split: prod.splits option.splits)

lemma Output_cases:
  obtains (fails) l1 err ev where "rotateFile e (Now e) l = (l1, Some err, ev)"
      "Output fm e d s l = (l1, Some err, ev)"
    | (writes) l1 ev h where "rotateFile e (Now e) l = (l1, None, ev)" "f l1 = Some h"
      "Output fm e d s l =
        (l1\<lparr>buf := header_of fm e d (flags l1) @ s @ line_end s,
            nbytes := nbytes l1 + of_nat (fst (FileWrite e h (header_of fm e d (flags l1) @ s @ line_end s)))\<rparr>,
         snd (FileWrite e h (header_of fm e d (flags l1) @ s @ line_end s)),
         ev @ [EvWrite h (header_of fm e d (flags l1) @ s @ line_end s)])"
proof -
  obtain l1 r ev where rot: "rotateFile e (Now e) l = (l1, r, ev)"
    by (cases "rotateFile e (Now e) l") auto
  show thesis
  proof (cases r)
    case None
    with rotateFile_result [OF rot] obtain h where "f l1 = Some h" by auto
    with rot None writes Output_writes show ?thesis by blast
  next
    case (Some err)
    with rot fails Output_rotate_fails show ?thesis by blast
  qed
qed

subsection \<open>Level names\<close>

lemmas level_defs = TRACE_def DEBUG_def WARN_def ERROR_def INFO_def FATAL_def

text \<open>
  C10. For each of the six levels TRACE, DEBUG, WARN, ERROR, INFO and FATAL, looking
  the level's name up in \<open>LogLevelMap\<close> gives the level back, and every other value
  of the level type has the name \<open>unknown\<close>.
\<close>

theorem LogLevelName_round_trip:
  "(L \<in> levels \<longrightarrow> LogLevelMap (LogLevelName L) = Some L) \<and>
   (L \<notin> levels \<longrightarrow> LogLevelName L = ''unknown'')"
  by (auto simp: levels_def LogLevelName_def LogLevelMap_def level_defs)

theorem LogLevelName_round_trip_witness:
  "WARN \<in> levels \<and> LogLevelMap (LogLevelName WARN) = Some WARN \<and>
   (7 :: LogLevel) \<notin> levels \<and> LogLevelName 7 = ''unknown''"
proof -
  have a: "WARN \<in> levels" by (simp add: levels_def)
  have b: "(7 :: LogLevel) \<notin> levels" by (simp add: levels_def level_defs)
  from a b LogLevelName_round_trip [of WARN] LogLevelName_round_trip [of 7]
  show ?thesis by blast
qed

subsection \<open>What a call of \<open>Output\<close> does\<close>

lemma parts [simp]:
  "state_after (a, b, c) = a" "returned (a, b, c) = b" "events_of (a, b, c) = c"
  by (simp_all add: state_after_def returned_def events_of_def)

lemma opened_files_append [simp]: "opened_files (xs @ ys) = opened_files xs @ opened_files ys"
  by (induction xs rule: opened_files.induct) simp_all

lemma written_append [simp]: "written (xs @ ys) = written xs @ written ys"
  by (induction xs rule: written.induct) simp_all

text \<open>What \<open>Output\<close> keeps of the rotation it starts with.\<close>

lemma Output_after_rotateFile:
  assumes "rotateFile e (Now e) l = (l1, r, ev1)"
  shows "fname (state_after (Output fm e d s l)) = fname l1 \<and>
         fid (state_after (Output fm e d s l)) = fid l1 \<and>
         f (state_after (Output fm e d s l)) = f l1 \<and>
         logDir (state_after (Output fm e d s l)) = logDir l1 \<and>
         logSizeLimit (state_after (Output fm e d s l)) = logSizeLimit l1 \<and>
         level (state_after (Output fm e d s l)) = level l1 \<and>
         flags (state_after (Output fm e d s l)) = flags l1 \<and>
         opened_files (events_of (Output fm e d s l)) = opened_files ev1 \<and>
         (\<exists>w. events_of (Output fm e d s l) = ev1 @ w \<and> opened_files w = [] \<and> (\<forall>h. EvClose h \<notin> set w))"
proof (cases rule: Output_cases [of e l fm d s])
  case (fails l1' err ev)
  with assms show ?thesis by simp
next
  case (writes l1' ev h)
  with assms show ?thesis by simp
qed


lemma decimal_numeral:
  "decimal (numeral k) =
     (if numeral k < (10::nat) then [digit_char (numeral k)]
      else decimal (numeral k div 10) @ [digit_char (numeral k mod 10)])"
  by (rule decimal.simps)

lemma decimal_0: "decimal 0 = ''0''"
  by (simp add: decimal.simps digit_char_def)

lemma decimal_1: "decimal (Suc 0) = ''1''"
  by (simp add: decimal.simps digit_char_def)

lemmas fmt_eval = decimal_numeral decimal_0 decimal_1 digit_char_def Sprintf_d_def Sprintf_0d_def

lemma bucket_key_13: "bucket_key time_13 = ''2026110313.log''"
  by (simp add: bucket_key_def getLogFileName_def time_13_def fmt_eval)

lemma bucket_key_14: "bucket_key time_14 = ''2026110314.log''"
  by (simp add: bucket_key_def getLogFileName_def time_14_def fmt_eval)

subsection \<open>The rotation decision\<close>



lemmas example_defs = env_ok_def env_no_open_def env_short_write_def env_no_caller_def env_gap_def
  env_crowded_def plain_def logger_13_last_def logger_13_def
  logger_13_full_def logger_13_closed_def


subsection \<open>Machine arithmetic\<close>

lemma sint_add_of_nat_64:
  fixes a :: int64
  assumes "sint a + int n < 2 ^ 63"
  shows "sint (a + of_nat n) = sint a + int n"
proof -
  have lo: "- (2 ^ 63) \<le> sint a"
    using sint_ge [of a] by simp
  have "a + of_nat n = word_of_int (sint a + int n)"
    by simp
  then have "sint (a + of_nat n) = signed_take_bit 63 (sint a + int n)"
    by (simp only: sint_sbintrunc') simp
  also have "\<dots> = sint a + int n"
    using assms lo by (intro signed_take_bit_int_eq_self) simp_all
  finally show ?thesis .
qed

lemma sint_add_1_32:
  fixes a :: int32
  assumes "sint a < 2 ^ 31 - 1"
  shows "sint (a + 1) = sint a + 1"
proof -
  have lo: "- (2 ^ 31) \<le> sint a"
    using sint_ge [of a] by simp
  have "a + 1 = word_of_int (sint a + 1)"
    by simp
  then have "sint (a + 1) = signed_take_bit 31 (sint a + 1)"
    by (simp only: sint_sbintrunc') simp
  also have "\<dots> = sint a + 1"
    using assms lo by (intro signed_take_bit_int_eq_self) simp_all
  finally show ?thesis .
qed

subsection \<open>The line terminator\<close>

lemma line_end_cases: "line_end s = [] \<or> line_end s = [newline]"
  by (simp add: line_end_def)

lemma line_end_iff: "(line_end s = [newline]) = (s = [] \<or> last s \<noteq> newline)"
  by (simp add: line_end_def)

lemma line_end_verbatim: "s \<noteq> [] \<Longrightarrow> last s = newline \<Longrightarrow> s @ line_end s = s"
  by (simp add: line_end_def)

lemma trailing_newlines_snoc:
  "trailing_newlines (s @ [c]) = (if c = newline then Suc (trailing_newlines s) else 0)"
  by (simp add: trailing_newlines_def)

lemma trailing_newlines_terminated:
  "trailing_newlines (s @ line_end s) = max 1 (trailing_newlines s)"
proof (cases s rule: rev_cases)
  case Nil
  then show ?thesis by (simp add: line_end_def trailing_newlines_def)
next
  case (snoc ys y)
  then show ?thesis
    by (cases "y = newline") (simp_all add: line_end_def trailing_newlines_snoc trailing_newlines_def)
qed

lemma WriterLogger_Output_eq:
  "WriterLogger_Output e d s w =
     (w\<lparr>wbuf := writer_header e d @ s @ line_end s\<rparr>,
      snd (OutWrite e (writer_header e d @ s @ line_end s)),
      [EvOutWrite (writer_header e d @ s @ line_end s)])"
  by (simp add: WriterLogger_Output_def writer_header_def caller_or_placeholder_def Let_def
      line_end_terminated split: prod.splits option.splits)

text \<open>
  C7. The record a call writes is the header, then the message \<open>s\<close> as it is, then
  a line terminator if and only if \<open>s\<close> is empty or its last byte is not one; this
  holds for the rotating logger (when its rotation step returns no error) and for the
  writer logger. So the record always ends in a terminator, a message that ends in one
  or more terminators is written as it is, and the text after the header ends in as
  many terminators as the message does, or in one if the message ends in none: never
  is a second one added.
\<close>

theorem record_ends_in_one_terminator:
  "(returned (rotateFile e (Now e) l) = None \<longrightarrow>
      written (events_of (Output fm e d s l)) = [header_of fm e d (flags l) @ s @ line_end s]) \<and>
   written (events_of (WriterLogger_Output e d s w)) = [writer_header e d @ s @ line_end s] \<and>
   (line_end s = [newline]) = (s = [] \<or> last s \<noteq> newline) \<and>
   (line_end s = []) = (s \<noteq> [] \<and> last s = newline) \<and>
   last (s @ line_end s) = newline \<and>
   trailing_newlines (s @ line_end s) = max 1 (trailing_newlines s)"
proof -
  have a: "returned (rotateFile e (Now e) l) = None \<longrightarrow>
      written (events_of (Output fm e d s l)) = [header_of fm e d (flags l) @ s @ line_end s]"
  proof
    assume r: "returned (rotateFile e (Now e) l) = None"
    obtain l1 x ev where rot: "rotateFile e (Now e) l = (l1, x, ev)"
      by (cases "rotateFile e (Now e) l") auto
    with r have rot': "rotateFile e (Now e) l = (l1, None, ev)" by simp
    from rotateFile_result [OF rot'] obtain h where h: "f l1 = Some h"
      and fl: "flags l1 = flags l" and wr: "written ev = []" by auto
    from Output_writes [OF rot' h, of fm d s] fl wr
    show "written (events_of (Output fm e d s l)) = [header_of fm e d (flags l) @ s @ line_end s]"
      by simp
  qed
  have b: "written (events_of (WriterLogger_Output e d s w)) = [writer_header e d @ s @ line_end s]"
    by (simp add: WriterLogger_Output_eq)
  have c: "last (s @ line_end s) = newline"
    by (simp add: line_end_def)
  have d: "(line_end s = []) = (s \<noteq> [] \<and> last s = newline)"
    by (simp add: line_end_def)
  from a b c d line_end_iff [of s] trailing_newlines_terminated [of s] show ?thesis
    by blast
qed


lemma header_13:
  "header_of plain (env_ok time_13) 2 fl = ''20261103 13:05:09.123456|main.go:42|main.main|''"
  "writer_header (env_ok time_13) 2 = ''20261103 13:05:09.123456|main.go:42|main.main|''"
  by (simp_all add: header_of_def writer_header_def caller_or_placeholder_def example_defs
      formatHeader_def time_13_def fmt_eval)

lemma rotateFile_keeps_logger_13:
  "rotateFile (env_ok time_13) (Now (env_ok time_13)) logger_13 = (logger_13, None, [])"
proof -
  have k: "bucket_key (Now (env_ok time_13)) = fname logger_13"
    by (simp add: example_defs bucket_key_13)
  show ?thesis
    by (rule rotateFile_keep [OF k]) (simp_all add: example_defs limit_reached_def)
qed

theorem record_ends_in_one_terminator_witness:
  "returned (rotateFile (env_ok time_13) (Now (env_ok time_13)) logger_13) = None \<and>
   written (events_of (Output plain (env_ok time_13) 2 ''INFO|up'' logger_13)) =
     [''20261103 13:05:09.123456|main.go:42|main.main|INFO|up'' @ [newline]] \<and>
   written (events_of (Output plain (env_ok time_13) 2 (''INFO|up'' @ [newline, newline]) logger_13)) =
     [''20261103 13:05:09.123456|main.go:42|main.main|INFO|up'' @ [newline, newline]] \<and>
   written (events_of (WriterLogger_Output (env_ok time_13) 2 [] \<lparr>wlevel = TRACE, wbuf = []\<rparr>)) =
     [''20261103 13:05:09.123456|main.go:42|main.main|'' @ [newline]]"
proof -
  have r: "returned (rotateFile (env_ok time_13) (Now (env_ok time_13)) logger_13) = None"
    by (simp add: rotateFile_keeps_logger_13)
  have fl: "flags logger_13 = 0"
    by (simp add: logger_13_def)
  from r record_ends_in_one_terminator [of "env_ok time_13" logger_13 plain 2 "''INFO|up''"]
  have a: "written (events_of (Output plain (env_ok time_13) 2 ''INFO|up'' logger_13)) =
     [''20261103 13:05:09.123456|main.go:42|main.main|INFO|up'' @ [newline]]"
    by (simp add: header_13 line_end_def newline_def)
  from r record_ends_in_one_terminator [of "env_ok time_13" logger_13 plain 2 "''INFO|up'' @ [newline, newline]"]
  have b: "written (events_of (Output plain (env_ok time_13) 2 (''INFO|up'' @ [newline, newline]) logger_13)) =
     [''20261103 13:05:09.123456|main.go:42|main.main|INFO|up'' @ [newline, newline]]"
    by (simp add: header_13 line_end_def)
  from record_ends_in_one_terminator [of "env_ok time_13" logger_13 plain 2 "[]" "\<lparr>wlevel = TRACE, wbuf = []\<rparr>"]
  have c: "written (events_of (WriterLogger_Output (env_ok time_13) 2 [] \<lparr>wlevel = TRACE, wbuf = []\<rparr>)) =
     [''20261103 13:05:09.123456|main.go:42|main.main|'' @ [newline]]"
    by (simp add: header_13 line_end_def)
  from r a b c show ?thesis by blast
qed

subsection \<open>The header\<close>

lemma LastIndexByte_ge: "- 1 \<le> LastIndexByte xs c"
  by (induction xs) (simp_all add: Let_def)

lemma LastIndexByte_found: "(0 \<le> LastIndexByte xs c) = (c \<in> set xs)"
  by (induction xs) (auto simp: Let_def)

lemma last_segment_Cons:
  "last_segment (x # xs) =
     (if CHR ''/'' \<in> set xs then last_segment xs else if x = CHR ''/'' then xs else x # xs)"
  by (auto simp: last_segment_def takeWhile_append)

lemma drop_LastIndexByte: "drop (nat (LastIndexByte p CHR ''/'' + 1)) p = last_segment p"
proof (induction p)
  case Nil
  then show ?case by (simp add: last_segment_def)
next
  case (Cons x xs)
  show ?case
  proof (cases "CHR ''/'' \<in> set xs")
    case True
    then have r: "0 \<le> LastIndexByte xs CHR ''/''" by (simp add: LastIndexByte_found)
    then have "nat (LastIndexByte xs CHR ''/'' + 1 + 1) = Suc (nat (LastIndexByte xs CHR ''/'' + 1))"
      by simp
    with r True Cons show ?thesis by (simp add: last_segment_Cons Let_def)
  next
    case False
    then have "\<not> 0 \<le> LastIndexByte xs CHR ''/''" by (simp add: LastIndexByte_found)
    with False show ?thesis by (simp add: last_segment_Cons Let_def)
  qed
qed

lemma last_segment_no_slash: "CHR ''/'' \<notin> set (last_segment file)"
  using set_takeWhileD [of "CHR ''/''" "\<lambda>c. c \<noteq> CHR ''/''" "rev file"]
  by (auto simp: last_segment_def)

lemma last_segment_whole: "CHR ''/'' \<notin> set p \<Longrightarrow> last_segment p = p"
proof -
  assume "CHR ''/'' \<notin> set p"
  then have tw: "takeWhile (\<lambda>c. c \<noteq> CHR ''/'') (rev p) = rev p"
    by (intro takeWhile_eq_all_conv [THEN iffD2]) auto
  show ?thesis unfolding last_segment_def tw by simp
qed

lemma last_segment_after: "CHR ''/'' \<notin> set base \<Longrightarrow> last_segment (pre @ CHR ''/'' # base) = base"
  by (simp add: last_segment_def takeWhile_append)


lemma digit_value_digit_char: "d < 10 \<Longrightarrow> digit_value (digit_char d) = d"
proof -
  assume "d < 10"
  then have "d \<in> {0, 1, 2, 3, 4, 5, 6, 7, 8, 9}" by auto
  then show ?thesis
    by (auto simp: digit_value_def digit_char_def)
qed

lemma digit_char_digit: "d < 10 \<Longrightarrow> digit_char d \<in> set ''0123456789''"
  unfolding digit_char_def by (rule nth_mem) simp

lemma decimal_value_snoc: "decimal_value (s @ [c]) = 10 * decimal_value s + digit_value c"
  by (simp add: decimal_value_def)

lemma decimal_value_decimal: "decimal_value (decimal n) = n"
proof (induction n rule: decimal.induct)
  case (1 n)
  show ?case
  proof (cases "n < 10")
    case True
    then show ?thesis
      by (subst decimal.simps) (simp add: decimal_value_def digit_value_digit_char)
  next
    case False
    with 1 show ?thesis
      by (subst decimal.simps) (simp add: decimal_value_snoc digit_value_digit_char)
  qed
qed

lemma decimal_digits: "set (decimal n) \<subseteq> set ''0123456789''"
proof (induction n rule: decimal.induct)
  case (1 n)
  show ?case
  proof (cases "n < 10")
    case True
    then show ?thesis
      using digit_char_digit [of n] by (subst decimal.simps) simp
  next
    case False
    with 1 show ?thesis
      using digit_char_digit [of "n mod 10"] by (subst decimal.simps) simp
  qed
qed

lemma length_decimal: "0 < w \<Longrightarrow> n < 10 ^ w \<Longrightarrow> length (decimal n) \<le> w"
proof (induction n arbitrary: w rule: decimal.induct)
  case (1 n)
  show ?case
  proof (cases "n < 10")
    case True
    with 1(2) show ?thesis
      by (subst decimal.simps) simp
  next
    case False
    with 1(3) have "1 < w"
      by (cases "w = 1") (use 1(2) in auto)
    then obtain v where w: "w = Suc v" and v: "0 < v"
      by (cases w) auto
    from 1(3) w have "n div 10 < 10 ^ v"
      by (simp add: less_mult_imp_div_less mult.commute)
    from 1(1) [OF False v this] w False show ?thesis
      by (subst decimal.simps) simp
  qed
qed

lemma decimal_nonempty: "decimal n \<noteq> []"
  by (subst decimal.simps) simp

lemma length_zero_padded: "0 < w \<Longrightarrow> n < 10 ^ w \<Longrightarrow> length (zero_padded w n) = w"
  using length_decimal [of w n] by (simp add: zero_padded_def)

lemma decimal_value_zeros: "decimal_value (replicate k CHR ''0'' @ s) = decimal_value s"
  by (induction k) (simp_all add: decimal_value_def digit_value_def)

lemma decimal_value_zero_padded: "decimal_value (zero_padded w n) = n"
  by (simp add: zero_padded_def decimal_value_zeros decimal_value_decimal)

lemma zero_padded_digits: "set (zero_padded w n) \<subseteq> set ''0123456789''"
  using decimal_digits [of n] by (auto simp: zero_padded_def)

lemma Sprintf_0d_nat: "Sprintf_0d w (int n) = zero_padded w n"
  by (simp add: Sprintf_0d_def zero_padded_def)

lemma formatHeader_eq:
  "formatHeader b t p line fn =
     b @ stamp t @ last_segment p @ '':'' @ Sprintf_d line @ ''|'' @ fn @ ''|''"
  by (simp add: formatHeader_def stamp_def Let_def Sprintf_0d_nat drop_LastIndexByte)


text \<open>
  C8. Whatever the time, the file path, the line and the function name,
  \<open>formatHeader\<close> appends the prefix \<open>YYYYMMDD HH:MM:SS.UUUUUU|file:line|function|\<close>:
  year, month and day with at least 4, 2 and 2 digits, hour, minute and second with
  at least 2 each, then the microseconds, which are the nanoseconds divided by 1000
  with the remainder dropped, with at least 6 digits, all padded with zeros; of the
  file path the text after its last \<open>/\<close>, or all of it if it has none; the line in
  decimal. A padded number has exactly the width when it fits, and consists of the
  digits of the number. When the caller cannot be found, the header is made of the
  file \<open>????\<close>, the line 0 and the function \<open>unknown\<close>, and the record is
  written as in any other call.
\<close>

theorem formatHeader_prefix:
  "formatHeader b t p line fn =
     b @ stamp t @ last_segment p @ '':'' @ Sprintf_d line @ ''|'' @ fn @ ''|'' \<and>
   (0 \<le> Year t \<longrightarrow> Sprintf_0d 4 (Year t) = zero_padded 4 (nat (Year t))) \<and>
   (\<forall>w n. decimal_value (zero_padded w n) = n \<and> set (zero_padded w n) \<subseteq> set ''0123456789'' \<and>
      (0 < w \<and> n < 10 ^ w \<longrightarrow> length (zero_padded w n) = w)) \<and>
   CHR ''/'' \<notin> set (last_segment p) \<and>
   (CHR ''/'' \<notin> set p \<longrightarrow> last_segment p = p) \<and>
   (\<forall>pre base. p = pre @ CHR ''/'' # base \<and> CHR ''/'' \<notin> set base \<longrightarrow> last_segment p = base) \<and>
   (0 \<le> line \<longrightarrow> Sprintf_d line = decimal (nat line) \<and> decimal_value (Sprintf_d line) = nat line) \<and>
   (Caller e d = None \<longrightarrow>
      writer_header e d = stamp (Now e) @ ''????:0|unknown|'' \<and>
      header_of fm e d fl = formatHeaderFlags fm [] fl (Now e) ''????'' 0 ''unknown'' \<and>
      WriterLogger_Output e d s w =
        (w\<lparr>wbuf := stamp (Now e) @ ''????:0|unknown|'' @ s @ line_end s\<rparr>,
         snd (OutWrite e (stamp (Now e) @ ''????:0|unknown|'' @ s @ line_end s)),
         [EvOutWrite (stamp (Now e) @ ''????:0|unknown|'' @ s @ line_end s)]) \<and>
      (returned (rotateFile e (Now e) l) = None \<longrightarrow>
         written (events_of (Output fm e d s l)) =
           [formatHeaderFlags fm [] (flags l) (Now e) ''????'' 0 ''unknown'' @ s @ line_end s]))"
proof -
  have year: "0 \<le> Year t \<longrightarrow> Sprintf_0d 4 (Year t) = zero_padded 4 (nat (Year t))"
    by (simp add: Sprintf_0d_def zero_padded_def)
  have pad: "\<forall>w n. decimal_value (zero_padded w n) = n \<and> set (zero_padded w n) \<subseteq> set ''0123456789'' \<and>
      (0 < w \<and> n < 10 ^ w \<longrightarrow> length (zero_padded w n) = w)"
    using decimal_value_zero_padded zero_padded_digits length_zero_padded by blast
  have seg: "\<forall>pre base. p = pre @ CHR ''/'' # base \<and> CHR ''/'' \<notin> set base \<longrightarrow> last_segment p = base"
    using last_segment_after by blast
  have ln: "0 \<le> line \<longrightarrow> Sprintf_d line = decimal (nat line) \<and> decimal_value (Sprintf_d line) = nat line"
    by (simp add: Sprintf_d_def decimal_value_decimal)
  have unknown: "Caller e d = None \<longrightarrow>
      writer_header e d = stamp (Now e) @ ''????:0|unknown|'' \<and>
      header_of fm e d fl = formatHeaderFlags fm [] fl (Now e) ''????'' 0 ''unknown'' \<and>
      WriterLogger_Output e d s w =
        (w\<lparr>wbuf := stamp (Now e) @ ''????:0|unknown|'' @ s @ line_end s\<rparr>,
         snd (OutWrite e (stamp (Now e) @ ''????:0|unknown|'' @ s @ line_end s)),
         [EvOutWrite (stamp (Now e) @ ''????:0|unknown|'' @ s @ line_end s)]) \<and>
      (returned (rotateFile e (Now e) l) = None \<longrightarrow>
         written (events_of (Output fm e d s l)) =
           [formatHeaderFlags fm [] (flags l) (Now e) ''????'' 0 ''unknown'' @ s @ line_end s])"
  proof
    assume c: "Caller e d = None"
    have wh: "writer_header e d = stamp (Now e) @ ''????:0|unknown|''"
      by (simp add: writer_header_def caller_or_placeholder_def c formatHeader_eq
          last_segment_def Sprintf_d_def decimal_0)
    have h: "header_of fm e d fl' = formatHeaderFlags fm [] fl' (Now e) ''????'' 0 ''unknown''" for fl'
      by (simp add: header_of_def caller_or_placeholder_def c)
    have out: "returned (rotateFile e (Now e) l) = None \<longrightarrow>
         written (events_of (Output fm e d s l)) =
           [formatHeaderFlags fm [] (flags l) (Now e) ''????'' 0 ''unknown'' @ s @ line_end s]"
    proof
      assume r: "returned (rotateFile e (Now e) l) = None"
      obtain l1 x ev where rot: "rotateFile e (Now e) l = (l1, x, ev)"
        by (cases "rotateFile e (Now e) l") auto
      with r have rot': "rotateFile e (Now e) l = (l1, None, ev)" by simp
      from rotateFile_result [OF rot'] obtain h' where h': "f l1 = Some h'"
        and fl: "flags l1 = flags l" and wr: "written ev = []" by auto
      from Output_writes [OF rot' h', of fm d s] fl wr h [of "flags l"]
      show "written (events_of (Output fm e d s l)) =
           [formatHeaderFlags fm [] (flags l) (Now e) ''????'' 0 ''unknown'' @ s @ line_end s]"
        by simp
    qed
    from wh h [of fl] out WriterLogger_Output_eq [of e d s w]
    show "writer_header e d = stamp (Now e) @ ''????:0|unknown|'' \<and>
      header_of fm e d fl = formatHeaderFlags fm [] fl (Now e) ''????'' 0 ''unknown'' \<and>
      WriterLogger_Output e d s w =
        (w\<lparr>wbuf := stamp (Now e) @ ''????:0|unknown|'' @ s @ line_end s\<rparr>,
         snd (OutWrite e (stamp (Now e) @ ''????:0|unknown|'' @ s @ line_end s)),
         [EvOutWrite (stamp (Now e) @ ''????:0|unknown|'' @ s @ line_end s)]) \<and>
      (returned (rotateFile e (Now e) l) = None \<longrightarrow>
         written (events_of (Output fm e d s l)) =
           [formatHeaderFlags fm [] (flags l) (Now e) ''????'' 0 ''unknown'' @ s @ line_end s])"
      by simp
  qed
  from formatHeader_eq [of b t p line fn] year pad last_segment_no_slash [of p]
    last_segment_whole [of p] seg ln unknown
  show ?thesis by blast
qed


lemma stamp_13: "stamp time_13 = ''20261103 13:05:09.123456|''"
  by (simp add: stamp_def zero_padded_def time_13_def fmt_eval)

lemma rotateFile_keeps_logger_13_no_caller:
  "rotateFile (env_no_caller time_13) (Now (env_no_caller time_13)) logger_13 = (logger_13, None, [])"
proof -
  have k: "bucket_key (Now (env_no_caller time_13)) = fname logger_13"
    by (simp add: example_defs bucket_key_13)
  show ?thesis
    by (rule rotateFile_keep [OF k]) (simp_all add: example_defs limit_reached_def)
qed

theorem formatHeader_prefix_witness:
  "formatHeader [] time_13 ''/src/app/main.go'' 42 ''main.main'' =
     ''20261103 13:05:09.123456|main.go:42|main.main|'' \<and>
   0 \<le> Year time_13 \<and> Sprintf_0d 4 (Year time_13) = ''2026'' \<and>
   Nanosecond time_13 = 123456789 \<and> (0 :: nat) < 6 \<and> Nanosecond time_13 div 1000 < 10 ^ 6 \<and>
   length (zero_padded 6 (Nanosecond time_13 div 1000)) = 6 \<and>
   CHR ''/'' \<notin> set ''main.go'' \<and> last_segment ''/src/app/main.go'' = ''main.go'' \<and>
   last_segment ''main.go'' = ''main.go'' \<and>
   (0 :: int) \<le> 42 \<and> decimal_value (Sprintf_d 42) = 42 \<and>
   Caller (env_no_caller time_13) 2 = None \<and>
   WriterLogger_Output (env_no_caller time_13) 2 ''INFO|up'' \<lparr>wlevel = TRACE, wbuf = []\<rparr> =
     (\<lparr>wlevel = TRACE, wbuf = ''20261103 13:05:09.123456|????:0|unknown|INFO|up'' @ [newline]\<rparr>,
      None, [EvOutWrite (''20261103 13:05:09.123456|????:0|unknown|INFO|up'' @ [newline])]) \<and>
   returned (rotateFile (env_no_caller time_13) (Now (env_no_caller time_13)) logger_13) = None \<and>
   written (events_of (Output plain (env_no_caller time_13) 2 ''INFO|up'' logger_13)) =
     [''20261103 13:05:09.123456|????:0|unknown|INFO|up'' @ [newline]]"
proof -
  note th = formatHeader_prefix [where b = "[]" and t = time_13 and p = "''/src/app/main.go''"
      and line = 42 and fn = "''main.main''" and e = "env_no_caller time_13" and d = 2
      and fm = plain and fl = 0 and s = "''INFO|up''" and w = "\<lparr>wlevel = TRACE, wbuf = []\<rparr>"
      and l = logger_13]
  note th2 = formatHeader_prefix [where p = "''main.go''" and line = 42]
  have y: "0 \<le> Year time_13" "Nanosecond time_13 = 123456789"
    "Nanosecond time_13 div 1000 < 10 ^ 6"
    by (simp_all add: time_13_def)
  have c: "Caller (env_no_caller time_13) 2 = None" "Now (env_no_caller time_13) = time_13"
    "OutWrite (env_no_caller time_13) = (\<lambda>b. (length b, None))"
    by (simp_all add: example_defs)
  have r: "returned (rotateFile (env_no_caller time_13) (Now (env_no_caller time_13)) logger_13) = None"
    by (simp add: rotateFile_keeps_logger_13_no_caller)
  have sl: "CHR ''/'' \<notin> set ''main.go''" "''/src/app/main.go'' = ''/src/app'' @ CHR ''/'' # ''main.go''"
    by simp_all
  have yr: "zero_padded 4 (nat (Year time_13)) = ''2026''"
    by (simp add: zero_padded_def time_13_def fmt_eval)
  have le: "line_end ''INFO|up'' = [newline]"
    by (simp add: line_end_def newline_def)
  note c1 = th [THEN conjunct1]
  note c2 = th [THEN conjunct2, THEN conjunct1]
  note c3 = th [THEN conjunct2, THEN conjunct2, THEN conjunct1]
  note c6 = th [THEN conjunct2, THEN conjunct2, THEN conjunct2, THEN conjunct2, THEN conjunct2,
      THEN conjunct1]
  note c7 = th [THEN conjunct2, THEN conjunct2, THEN conjunct2, THEN conjunct2, THEN conjunct2,
      THEN conjunct2, THEN conjunct1]
  note c8 = th [THEN conjunct2, THEN conjunct2, THEN conjunct2, THEN conjunct2, THEN conjunct2,
      THEN conjunct2, THEN conjunct2, THEN mp, OF c(1)]
  note d5 = th2 [THEN conjunct2, THEN conjunct2, THEN conjunct2, THEN conjunct2, THEN conjunct1]
  have ls: "last_segment ''/src/app/main.go'' = ''main.go''" "last_segment ''main.go'' = ''main.go''"
    using c6 d5 sl by blast+
  have hd: "formatHeader [] time_13 ''/src/app/main.go'' 42 ''main.main'' =
     ''20261103 13:05:09.123456|main.go:42|main.main|''"
    unfolding c1 ls stamp_13 by (simp add: fmt_eval)
  have pad: "length (zero_padded 6 (Nanosecond time_13 div 1000)) = 6"
    by (rule c3 [THEN spec [where x = 6], THEN spec [where x = "Nanosecond time_13 div 1000"],
          THEN conjunct2, THEN conjunct2, THEN mp]) (use y(3) in simp)
  have "(0 :: int) \<le> 42" by simp
  from c7 [THEN mp, OF this] have "decimal_value (Sprintf_d 42) = nat 42"
    by (rule conjunct2)
  then have ln: "decimal_value (Sprintf_d 42) = 42"
    by simp
  have year: "Sprintf_0d 4 (Year time_13) = ''2026''"
    using c2 y(1) yr by simp
  have wo: "WriterLogger_Output (env_no_caller time_13) 2 ''INFO|up'' \<lparr>wlevel = TRACE, wbuf = []\<rparr> =
     (\<lparr>wlevel = TRACE, wbuf = ''20261103 13:05:09.123456|????:0|unknown|INFO|up'' @ [newline]\<rparr>,
      None, [EvOutWrite (''20261103 13:05:09.123456|????:0|unknown|INFO|up'' @ [newline])])"
    unfolding c8 [THEN conjunct2, THEN conjunct2, THEN conjunct1] c stamp_13 le by simp
  have ro: "written (events_of (Output plain (env_no_caller time_13) 2 ''INFO|up'' logger_13)) =
     [''20261103 13:05:09.123456|????:0|unknown|INFO|up'' @ [newline]]"
    unfolding c8 [THEN conjunct2, THEN conjunct2, THEN conjunct2, THEN mp, OF r] c le
    by (simp add: plain_def formatHeader_eq stamp_13 last_segment_def fmt_eval)
  from hd y year pad sl(1) ls ln c(1) wo r ro show ?thesis
    by simp
qed

subsection \<open>The leveled methods\<close>

lemma Output_events_nonempty: "events_of (Output fm e d s l) \<noteq> []"
proof (cases rule: Output_cases [of e l fm d s])
  case (fails l1 err ev)
  from rotateFile_result [OF fails(1)] have "opened_files ev = [target l1]" by simp
  then have "ev \<noteq> []" by auto
  with fails show ?thesis by simp
next
  case (writes l1 ev h)
  then show ?thesis by simp
qed

lemma reopen_no_exit: "EvExit n \<notin> set (events_of (reopen e l))"
  by (cases "OpenFile e (target l) create_append")
    (auto simp: reopen_opens reopen_fails split: option.splits)

lemma Output_no_exit: "EvExit n \<notin> set (events_of (Output fm e d s l))"
proof (cases rule: Output_cases [of e l fm d s])
  case (fails l1 err ev)
  have "EvExit n \<notin> set (events_of (rotateFile e (Now e) l))"
    by (cases rule: rotateFile_cases [of "Now e" l e]) (simp_all add: reopen_no_exit)
  with fails show ?thesis by simp
next
  case (writes l1 ev h)
  have "EvExit n \<notin> set (events_of (rotateFile e (Now e) l))"
    by (cases rule: rotateFile_cases [of "Now e" l e]) (simp_all add: reopen_no_exit)
  with writes show ?thesis by simp
qed

lemmas method_defs = Tracef_def Trace_def Debugf_def Debug_def Warnf_def Warn_def Errorf_def Error_def
  Infof_def Info_def Fatalf_def Fatal_def

lemma call_eq:
  "call fm e c l =
     (if filtered c \<and> sint (severity c) < sint (level l) then (l, [])
      else (state_after (Output fm e 2 (record_text c) l),
            events_of (Output fm e 2 (record_text c) l) @ (if fatal c then [EvExit 1] else [])))"
  by (cases c)
    (simp_all add: method_defs LogLevel_def state_after_def returned_def events_of_def
      split: prod.splits)

text \<open>
  C3. Whatever the threshold \<open>T\<close> of the logger: a call of Trace, Tracef, Debug,
  Debugf, Warn, Warnf, Error or Errorf, of severity \<open>S\<close>, calls \<open>Output\<close> with
  its record if and only if \<open>S \<ge> T\<close>, and otherwise does nothing; a call of Info,
  Infof, Fatal or Fatalf always calls \<open>Output\<close>; Fatal and Fatalf then leave the
  process with status 1, whatever \<open>Output\<close> returned. A call of \<open>Output\<close> always
  leaves events, so the two cases can be told apart.
\<close>

theorem leveled_calls_filter_by_threshold:
  "call fm e c l =
     (if filtered c \<and> \<not> sint (LogLevel l) \<le> sint (severity c) then (l, [])
      else (state_after (Output fm e 2 (record_text c) l),
            events_of (Output fm e 2 (record_text c) l) @ (if fatal c then [EvExit 1] else []))) \<and>
   events_of (Output fm e 2 (record_text c) l) \<noteq> [] \<and>
   (filtered c \<longrightarrow> (snd (call fm e c l) \<noteq> []) = (sint (LogLevel l) \<le> sint (severity c))) \<and>
   (\<not> filtered c \<longrightarrow> snd (call fm e c l) \<noteq> []) \<and>
   (fatal c \<longrightarrow> \<not> filtered c \<and> last (snd (call fm e c l)) = EvExit 1 \<and>
      butlast (snd (call fm e c l)) = events_of (Output fm e 2 (record_text c) l)) \<and>
   (\<not> fatal c \<longrightarrow> (\<forall>n. EvExit n \<notin> set (snd (call fm e c l))))"
proof -
  note ne = Output_events_nonempty [of fm e 2 "record_text c" l]
  have f: "fatal c \<longrightarrow> \<not> filtered c"
    by (cases c) simp_all
  from call_eq [of fm e c l] ne f Output_no_exit [of _ fm e 2 "record_text c" l] show ?thesis
    by (auto simp: LogLevel_def not_le)
qed


theorem leveled_calls_filter_by_threshold_witness:
  "filtered (Debug_call [''x'', ''y'']) \<and> \<not> sint (LogLevel (logger_13\<lparr>level := WARN\<rparr>)) \<le> sint DEBUG \<and>
   call plain (env_ok time_13) (Debug_call [''x'', ''y'']) (logger_13\<lparr>level := WARN\<rparr>) =
     (logger_13\<lparr>level := WARN\<rparr>, []) \<and>
   filtered (Errorf_call ''disk'') \<and> sint (LogLevel (logger_13\<lparr>level := WARN\<rparr>)) \<le> sint ERROR \<and>
   snd (call plain (env_ok time_13) (Errorf_call ''disk'') (logger_13\<lparr>level := WARN\<rparr>)) =
     events_of (Output plain (env_ok time_13) 2 ''ERROR|disk'' (logger_13\<lparr>level := WARN\<rparr>)) \<and>
   snd (call plain (env_ok time_13) (Errorf_call ''disk'') (logger_13\<lparr>level := WARN\<rparr>)) \<noteq> [] \<and>
   fatal (Fatal_call [''x'', ''y'']) \<and> \<not> sint (LogLevel (logger_13\<lparr>level := 100\<rparr>)) \<le> sint FATAL \<and>
   snd (call plain (env_ok time_13) (Fatal_call [''x'', ''y'']) (logger_13\<lparr>level := 100\<rparr>)) =
     events_of (Output plain (env_ok time_13) 2 (''FATAL|x y'' @ [newline]) (logger_13\<lparr>level := 100\<rparr>)) @
     [EvExit 1]"
proof -
  have lv: "\<not> sint (LogLevel (logger_13\<lparr>level := WARN\<rparr>)) \<le> sint DEBUG"
    "sint (LogLevel (logger_13\<lparr>level := WARN\<rparr>)) \<le> sint ERROR"
    "\<not> sint (LogLevel (logger_13\<lparr>level := 100\<rparr>)) \<le> sint FATAL"
    by (simp_all add: LogLevel_def level_defs)
  have tx: "record_text (Errorf_call ''disk'') = ''ERROR|disk''"
    "record_text (Fatal_call [''x'', ''y'']) = ''FATAL|x y'' @ [newline]"
    by simp_all
  have sv: "severity (Debug_call [''x'', ''y'']) = DEBUG" "severity (Errorf_call ''disk'') = ERROR"
    "severity (Fatal_call [''x'', ''y'']) = FATAL"
    by simp_all
  have fl: "filtered (Debug_call [''x'', ''y''])" "filtered (Errorf_call ''disk'')"
    "\<not> filtered (Fatal_call [''x'', ''y''])" "fatal (Fatal_call [''x'', ''y''])"
    "\<not> fatal (Errorf_call ''disk'')"
    by simp_all
  note a = leveled_calls_filter_by_threshold [of plain "env_ok time_13" "Debug_call [''x'', ''y'']"
      "logger_13\<lparr>level := WARN\<rparr>", THEN conjunct1]
  note b = leveled_calls_filter_by_threshold [of plain "env_ok time_13" "Errorf_call ''disk''"
      "logger_13\<lparr>level := WARN\<rparr>"]
  note c = leveled_calls_filter_by_threshold [of plain "env_ok time_13" "Fatal_call [''x'', ''y'']"
      "logger_13\<lparr>level := 100\<rparr>", THEN conjunct1]
  have a': "call plain (env_ok time_13) (Debug_call [''x'', ''y'']) (logger_13\<lparr>level := WARN\<rparr>) =
     (logger_13\<lparr>level := WARN\<rparr>, [])"
    unfolding a sv using fl(1) lv(1) by simp
  have b': "snd (call plain (env_ok time_13) (Errorf_call ''disk'') (logger_13\<lparr>level := WARN\<rparr>)) =
     events_of (Output plain (env_ok time_13) 2 ''ERROR|disk'' (logger_13\<lparr>level := WARN\<rparr>))"
    unfolding b [THEN conjunct1] sv tx using fl lv(2) by simp
  have b'': "snd (call plain (env_ok time_13) (Errorf_call ''disk'') (logger_13\<lparr>level := WARN\<rparr>)) \<noteq> []"
    using b [THEN conjunct2, THEN conjunct2, THEN conjunct1] fl(2) lv(2) sv(2) by simp
  have c': "snd (call plain (env_ok time_13) (Fatal_call [''x'', ''y'']) (logger_13\<lparr>level := 100\<rparr>)) =
     events_of (Output plain (env_ok time_13) 2 (''FATAL|x y'' @ [newline]) (logger_13\<lparr>level := 100\<rparr>)) @
     [EvExit 1]"
    unfolding c tx using fl by simp
  from lv fl a' b' b'' c' show ?thesis
    by simp
qed

subsection \<open>Runs of calls\<close>

text \<open>One call of \<open>Output\<close>, as far as the bucket key and the sequence id go.\<close>

lemma Output_step:
  "logDir (state_after (Output fm e d s l)) = logDir l \<and>
   logSizeLimit (state_after (Output fm e d s l)) = logSizeLimit l \<and>
   level (state_after (Output fm e d s l)) = level l \<and>
   flags (state_after (Output fm e d s l)) = flags l \<and>
   fname (state_after (Output fm e d s l)) = bucket_key (Now e) \<and>
   fid (state_after (Output fm e d s l)) =
     (if bucket_key (Now e) \<noteq> fname l then 0 else if limit_reached l then fid l + 1 else fid l) \<and>
   (opened_files (events_of (Output fm e d s l)) = [] \<or>
    opened_files (events_of (Output fm e d s l)) = [target (state_after (Output fm e d s l))]) \<and>
   (bucket_key (Now e) \<noteq> fname l \<or> limit_reached l \<or> f l = None \<longrightarrow>
      opened_files (events_of (Output fm e d s l)) = [target (state_after (Output fm e d s l))])"
proof -
  obtain l1 r ev1 where rot: "rotateFile e (Now e) l = (l1, r, ev1)"
    by (cases "rotateFile e (Now e) l") auto
  note out = Output_after_rotateFile [OF rot, of fm d s]
  then have tg: "target (state_after (Output fm e d s l)) = target l1"
    by (simp add: target_def)
  show ?thesis
  proof (cases rule: rotateFile_cases [of "Now e" l e])
    case new_bucket
    with rot have "reopen e (l\<lparr>fname := bucket_key (Now e), fid := 0\<rparr>) = (l1, r, ev1)" by simp
    from reopen_result [OF this] out new_bucket(1) tg show ?thesis by (simp add: target_def)
  next
    case next_sequence
    with rot have "reopen e (l\<lparr>fid := fid l + 1\<rparr>) = (l1, r, ev1)" by simp
    from reopen_result [OF this] out next_sequence(1,2) tg show ?thesis by (simp add: target_def)
  next
    case no_file
    with rot have "reopen e l = (l1, r, ev1)" by simp
    from reopen_result [OF this] out no_file(1,2,3) tg show ?thesis by (simp add: target_def)
  next
    case keep
    with rot have "l1 = l" "ev1 = []" by simp_all
    with out keep(1,2,3) show ?thesis by auto
  qed
qed

lemma Output_logDir [simp]: "logDir (state_after (Output fm e d s l)) = logDir l"
  using Output_step [of fm e d s l] by blast

lemma Output_logSizeLimit [simp]: "logSizeLimit (state_after (Output fm e d s l)) = logSizeLimit l"
  using Output_step [of fm e d s l] by blast

lemma Output_level [simp]: "level (state_after (Output fm e d s l)) = level l"
  using Output_step [of fm e d s l] by blast

lemma Output_fname [simp]: "fname (state_after (Output fm e d s l)) = bucket_key (Now e)"
  using Output_step [of fm e d s l] by blast

lemma Output_fid:
  "fid (state_after (Output fm e d s l)) =
     (if bucket_key (Now e) \<noteq> fname l then 0 else if limit_reached l then fid l + 1 else fid l)"
  using Output_step [of fm e d s l] by blast

lemma Output_opened:
  "set (opened_files (events_of (Output fm e d s l))) \<subseteq> {target (state_after (Output fm e d s l))}"
proof -
  from Output_step [of fm e d s l]
  have "opened_files (events_of (Output fm e d s l)) = [] \<or>
    opened_files (events_of (Output fm e d s l)) = [target (state_after (Output fm e d s l))]"
    by blast
  then show ?thesis by auto
qed

lemma Outputs_Cons [simp]:
  "Outputs fm ((e, d, s) # calls) l =
     (fst (Outputs fm calls (state_after (Output fm e d s l))),
      events_of (Output fm e d s l) @ snd (Outputs fm calls (state_after (Output fm e d s l))))"
  by (simp add: state_after_def events_of_def split: prod.splits)

declare Outputs.simps(2) [simp del]

lemma Outputs_without_limit:
  assumes "sint (logSizeLimit l) \<le> 0" and "\<forall>c \<in> set calls. bucket_key (Now (fst c)) = k"
  shows "logDir (fst (Outputs fm calls l)) = logDir l \<and>
         logSizeLimit (fst (Outputs fm calls l)) = logSizeLimit l \<and>
         set (opened_files (snd (Outputs fm calls l))) \<subseteq>
           {segment (logDir l) k (if fname l = k then fid l else 0)} \<and>
         (calls \<noteq> [] \<longrightarrow> fname (fst (Outputs fm calls l)) = k \<and>
            fid (fst (Outputs fm calls l)) = (if fname l = k then fid l else 0))"
  using assms
proof (induction calls arbitrary: l)
  case Nil
  then show ?case by simp
next
  case (Cons c calls)
  obtain e d s where c: "c = (e, d, s)" by (cases c) auto
  let ?l1 = "state_after (Output fm e d s l)"
  from Cons.prems c have k: "bucket_key (Now e) = k" by simp
  from Cons.prems(1) have nl: "\<not> limit_reached l" by (simp add: limit_reached_def)
  from k nl have l1: "logDir ?l1 = logDir l" "logSizeLimit ?l1 = logSizeLimit l" "fname ?l1 = k"
    "fid ?l1 = (if fname l = k then fid l else 0)"
    by (simp_all add: Output_fid)
  from Output_opened [of fm e d s l] l1 have op: "set (opened_files (events_of (Output fm e d s l))) \<subseteq>
      {segment (logDir l) k (if fname l = k then fid l else 0)}"
    by (simp add: target_def)
  from Cons.prems l1 have "sint (logSizeLimit ?l1) \<le> 0" "\<forall>c \<in> set calls. bucket_key (Now (fst c)) = k"
    by simp_all
  from Cons.IH [OF this] l1 have ih:
    "logDir (fst (Outputs fm calls ?l1)) = logDir l"
    "logSizeLimit (fst (Outputs fm calls ?l1)) = logSizeLimit l"
    "set (opened_files (snd (Outputs fm calls ?l1))) \<subseteq> {segment (logDir l) k (if fname l = k then fid l else 0)}"
    "calls \<noteq> [] \<longrightarrow> fname (fst (Outputs fm calls ?l1)) = k \<and>
       fid (fst (Outputs fm calls ?l1)) = (if fname l = k then fid l else 0)"
    by simp_all
  show ?case
  proof (cases "calls = []")
    case True
    with l1 op show ?thesis by (simp add: c Outputs_Cons)
  next
    case False
    with ih op show ?thesis by (simp add: c Outputs_Cons)
  qed
qed


subsection \<open>Rotation by size can be switched off\<close>

text \<open>
  C2. With a size limit that is zero or negative, rotation by size is off: in a run
  of \<open>Output\<close> calls whose times all have the bucket key \<open>k\<close>, whatever the byte
  counter is and whatever the writes report, every file the run opens is the one file
  of bucket \<open>k\<close> with the sequence id the logger had (or with sequence id 0, if the
  logger was in another bucket, which the first call leaves); after each call the
  logger has that bucket key and that sequence id. Only a change of bucket rotates.
\<close>

theorem no_size_rotation_without_limit:
  assumes "sint (logSizeLimit l) \<le> 0" and "\<forall>c \<in> set calls. bucket_key (Now (fst c)) = k"
  shows "set (opened_files (snd (Outputs fm calls l))) \<subseteq>
           {segment (logDir l) k (if fname l = k then fid l else 0)} \<and>
         (\<forall>n. 0 < n \<and> n \<le> length calls \<longrightarrow>
            fname (fst (Outputs fm (take n calls) l)) = k \<and>
            fid (fst (Outputs fm (take n calls) l)) = (if fname l = k then fid l else 0) \<and>
            logSizeLimit (fst (Outputs fm (take n calls) l)) = logSizeLimit l)"
proof -
  have "fname (fst (Outputs fm (take n calls) l)) = k \<and>
        fid (fst (Outputs fm (take n calls) l)) = (if fname l = k then fid l else 0) \<and>
        logSizeLimit (fst (Outputs fm (take n calls) l)) = logSizeLimit l"
    if n: "0 < n \<and> n \<le> length calls" for n
  proof -
    from assms(2) have "\<forall>c \<in> set (take n calls). bucket_key (Now (fst c)) = k"
      by (meson in_set_takeD)
    from Outputs_without_limit [OF assms(1) this, of fm] n show ?thesis
      by auto
  qed
  with Outputs_without_limit [OF assms, of fm] show ?thesis
    by blast
qed

theorem no_size_rotation_without_limit_witness:
  "sint (logSizeLimit (SetLogSizeLimit 0 logger_13_full)) \<le> 0 \<and>
   limit_reached logger_13_full \<and> nbytes (SetLogSizeLimit 0 logger_13_full) = 100 \<and>
   bucket_key (Now (env_ok time_13)) = ''2026110313.log'' \<and>
   set (opened_files (snd (Outputs plain
         [(env_ok time_13, 2, ''a''), (env_ok time_13, 2, ''b''), (env_ok time_13, 2, ''c'')]
         (SetLogSizeLimit 0 logger_13_full)))) \<subseteq> {(''/var/log'', ''2026110313.log'')} \<and>
   fid (fst (Outputs plain
         [(env_ok time_13, 2, ''a''), (env_ok time_13, 2, ''b''), (env_ok time_13, 2, ''c'')]
         (SetLogSizeLimit 0 logger_13_full))) = 0"
proof -
  let ?l = "SetLogSizeLimit 0 logger_13_full"
  let ?calls = "[(env_ok time_13, 2, ''a''), (env_ok time_13, 2, ''b''), (env_ok time_13, 2, ''c'')]"
  have lim: "sint (logSizeLimit ?l) \<le> 0"
    by (simp add: SetLogSizeLimit_def)
  have k: "bucket_key (Now (env_ok time_13)) = ''2026110313.log''"
    by (simp add: env_ok_def bucket_key_13)
  then have ks: "\<forall>c \<in> set ?calls. bucket_key (Now (fst c)) = ''2026110313.log''"
    by simp
  have l: "fname ?l = ''2026110313.log''" "fid ?l = 0" "logDir ?l = ''/var/log''" "nbytes ?l = 100"
    "limit_reached logger_13_full"
    by (simp_all add: SetLogSizeLimit_def example_defs limit_reached_def)
  have seg: "segment ''/var/log'' ''2026110313.log'' 0 = (''/var/log'', ''2026110313.log'')"
    by (simp add: segment_def)
  note th = no_size_rotation_without_limit [OF lim ks, of plain]
  from th [THEN conjunct1] have a: "set (opened_files (snd (Outputs plain ?calls ?l))) \<subseteq>
      {(''/var/log'', ''2026110313.log'')}"
    by (simp only: l seg if_cancel)
  have "0 < (3 :: nat) \<and> 3 \<le> length ?calls" by simp
  from th [THEN conjunct2, THEN spec, THEN mp, OF this]
  have b: "fid (fst (Outputs plain ?calls ?l)) = 0"
    by (simp only: l if_cancel) simp
  from lim l(4,5) k a b show ?thesis
    by blast
qed

subsection \<open>Sequence ids\<close>

lemma Outputs_append:
  "Outputs fm (xs @ ys) l =
     (fst (Outputs fm ys (fst (Outputs fm xs l))),
      snd (Outputs fm xs l) @ snd (Outputs fm ys (fst (Outputs fm xs l))))"
proof (induction xs arbitrary: l)
  case Nil
  then show ?case by simp
next
  case (Cons c xs)
  obtain e d s where c: "c = (e, d, s)" by (cases c) auto
  from Cons [of "state_after (Output fm e d s l)"] show ?case
    by (simp add: c)
qed

lemma Output_fid_same_bucket:
  assumes "bucket_key (Now e) = fname l" and "sint (fid l) < 2 ^ 31 - 1"
  shows "sint (fid l) \<le> sint (fid (state_after (Output fm e d s l))) \<and>
         sint (fid (state_after (Output fm e d s l))) \<le> sint (fid l) + 1"
  using assms sint_add_1_32 [of "fid l"] by (simp add: Output_fid)

lemma Outputs_fid_bounds:
  assumes "\<forall>c \<in> set calls. bucket_key (Now (fst c)) = fname l"
    and "sint (fid l) + int (length calls) < 2 ^ 31"
  shows "fname (fst (Outputs fm calls l)) = fname l \<and>
         sint (fid l) \<le> sint (fid (fst (Outputs fm calls l))) \<and>
         sint (fid (fst (Outputs fm calls l))) \<le> sint (fid l) + int (length calls)"
  using assms
proof (induction calls arbitrary: l)
  case Nil
  then show ?case by simp
next
  case (Cons c calls)
  obtain e d s where c: "c = (e, d, s)" by (cases c) auto
  let ?l1 = "state_after (Output fm e d s l)"
  from Cons.prems c have k: "bucket_key (Now e) = fname l" by simp
  from Cons.prems(2) have "sint (fid l) < 2 ^ 31 - 1" by simp
  from Output_fid_same_bucket [OF k this, of fm d s]
  have st: "sint (fid l) \<le> sint (fid ?l1)" "sint (fid ?l1) \<le> sint (fid l) + 1"
    by simp_all
  have fn: "fname ?l1 = fname l" using k by simp
  from Cons.prems fn st have "\<forall>c \<in> set calls. bucket_key (Now (fst c)) = fname ?l1"
    "sint (fid ?l1) + int (length calls) < 2 ^ 31"
    by simp_all
  from Cons.IH [OF this] fn st show ?case
    by (simp add: c)
qed

lemma Outputs_fid_monotone:
  assumes "\<forall>c \<in> set calls. bucket_key (Now (fst c)) = fname l"
    and "sint (fid l) + int (length calls) < 2 ^ 31" and "n \<le> m"
  shows "sint (fid (fst (Outputs fm (take n calls) l))) \<le> sint (fid (fst (Outputs fm (take m calls) l)))"
proof -
  let ?xs = "take n calls" and ?ys = "drop n (take m calls)"
  let ?l1 = "fst (Outputs fm ?xs l)"
  have split: "take m calls = ?xs @ ?ys"
    using assms(3) by (metis append_take_drop_id min.absorb1 take_take)
  have xs: "\<forall>c \<in> set ?xs. bucket_key (Now (fst c)) = fname l"
    using assms(1) by (meson in_set_takeD)
  have ys: "\<forall>c \<in> set ?ys. bucket_key (Now (fst c)) = fname l"
    using assms(1) by (meson in_set_dropD in_set_takeD)
  have len: "length ?xs + length ?ys \<le> length calls"
    by simp
  from assms(2) len have "sint (fid l) + int (length ?xs) < 2 ^ 31"
    by linarith
  from Outputs_fid_bounds [OF xs this, of fm]
  have l1: "fname ?l1 = fname l" "sint (fid ?l1) \<le> sint (fid l) + int (length ?xs)"
    by simp_all
  from l1 assms(2) len have "sint (fid ?l1) + int (length ?ys) < 2 ^ 31"
    by linarith
  moreover from ys l1 have "\<forall>c \<in> set ?ys. bucket_key (Now (fst c)) = fname ?l1"
    by simp
  ultimately have "sint (fid ?l1) \<le> sint (fid (fst (Outputs fm ?ys ?l1)))"
    using Outputs_fid_bounds [of ?ys ?l1 fm] by blast
  moreover have "Outputs fm (take m calls) l = Outputs fm (?xs @ ?ys) l"
    by (rule arg_cong [where f = "\<lambda>c. Outputs fm c l", OF split])
  ultimately show ?thesis
    by (simp only: Outputs_append fst_conv)
qed

subsection \<open>The constructor\<close>

lemma candidate_eq:
  "filepath_Join dir (getLogFileName now (word_of_int (int j))) = candidate dir now j"
  by (simp add: candidate_def segment_def filepath_Join_def getLogFileName_def bucket_key_def Let_def)

lemma candidate_eq_nat:
  "filepath_Join dir (getLogFileName now (of_nat j)) = candidate dir now j"
  by (simp add: candidate_def segment_def filepath_Join_def getLogFileName_def bucket_key_def Let_def)

lemma target_candidate:
  "logDir l = dir \<Longrightarrow> fname l = bucket_key now \<Longrightarrow> fid l = of_nat k \<Longrightarrow> target l = candidate dir now k"
  by (simp add: target_def candidate_def)

lemma NewRotateLogger_loop_eq:
  assumes "n = 100 - i" and "i \<le> 100"
  shows "NewRotateLogger_loop e now (int i) l =
     (let k = length (takeWhile (\<lambda>j. Stat e (candidate (logDir l) now j) = None) [i..<100])
      in (l\<lparr>fid := fid l + of_nat k\<rparr>,
          (if i + k < 100
           then (case Stat e (candidate (logDir l) now (i + k)) of
                   Some err \<Rightarrow> if IsNotExist err then None else Some err
                 | None \<Rightarrow> None)
           else None),
          map (\<lambda>j. EvStat (candidate (logDir l) now j)) [i..<(if i + k < 100 then Suc (i + k) else 100)]))"
  using assms
proof (induction n arbitrary: i l)
  case 0
  then have i: "i = 100" by simp
  show ?case
    by (subst NewRotateLogger_loop.simps) (simp add: i)
next
  case (Suc n)
  then have i: "i < 100" and n: "n = 100 - Suc i" and le: "Suc i \<le> 100" by simp_all
  have upt: "[i..<100] = i # [Suc i..<100]"
    using i by (simp add: upt_conv_Cons)
  show ?case
  proof (cases "Stat e (candidate (logDir l) now i)")
    case None
    have "int i + 1 = int (Suc i)" by simp
    then have step: "NewRotateLogger_loop e now (int i) l =
        (case NewRotateLogger_loop e now (int (Suc i)) (l\<lparr>fid := fid l + 1\<rparr>) of
           (l', err, ev) \<Rightarrow> (l', err, EvStat (candidate (logDir l) now i) # ev))"
      using i None by (subst NewRotateLogger_loop.simps) (simp only: candidate_eq Let_def, simp)
    have ev: "[i..<Suc (Suc (i + k))] = i # [Suc i..<Suc (Suc (i + k))]" for k
      by (rule upt_conv_Cons) simp
    show ?thesis
      unfolding step Suc.IH [OF n le] upt
      using None by (simp add: ev upt add.assoc Let_def del: upt_Suc)
  next
    case (Some err)
    show ?thesis
      using i Some
      by (subst NewRotateLogger_loop.simps) (simp add: candidate_eq_nat upt Let_def)
  qed
qed


lemma NewRotateLogger_eq:
  "NewRotateLogger fm e dir lv =
     (case MkdirAll e dir of
        Some err \<Rightarrow> (None, Some err, [EvMkdirAll dir])
      | None \<Rightarrow>
          (let k = leading_existing e dir (Now e);
               file = candidate dir (Now e) k;
               stats = map (\<lambda>j. EvStat (candidate dir (Now e) j)) [1..<(if k < 99 then k + 2 else 100)]
           in case (if k < 99
                    then (case Stat e (candidate dir (Now e) (Suc k)) of
                            Some err \<Rightarrow> if IsNotExist err then None else Some err
                          | None \<Rightarrow> None)
                    else None) of
                Some err \<Rightarrow> (None, Some err, EvMkdirAll dir # stats)
              | None \<Rightarrow>
                  (case OpenFile e file create_append of
                     Some err \<Rightarrow>
                       (None, Some err, EvMkdirAll dir # stats @ [EvOpenFile file create_append])
                   | None \<Rightarrow>
                       (Some \<lparr>logDir = dir, level = lv, logSizeLimit = DEFAULT_LOG_FILE_SIZE,
                              flags = LdefaultFlags fm, buf = [], f = Some file,
                              fname = bucket_key (Now e),
                              nbytes = (case FileStat e file of Some sz \<Rightarrow> sz | None \<Rightarrow> 0),
                              fid = of_nat k\<rparr>,
                        None,
                        EvMkdirAll dir # stats @ [EvOpenFile file create_append, EvFileStat file]))))"
proof (cases "MkdirAll e dir")
  case (Some err)
  then show ?thesis by (simp add: NewRotateLogger_def)
next
  case None
  let ?l = "\<lparr>logDir = dir, level = lv, logSizeLimit = DEFAULT_LOG_FILE_SIZE, flags = LdefaultFlags fm,
             buf = [], f = None, fname = bucket_key (Now e), nbytes = 0, fid = 0\<rparr>"
  let ?k = "leading_existing e dir (Now e)"
  have loop: "NewRotateLogger_loop e (Now e) 1 ?l =
      (?l\<lparr>fid := of_nat ?k\<rparr>,
       (if ?k < 99
        then (case Stat e (candidate dir (Now e) (Suc ?k)) of
                Some err \<Rightarrow> if IsNotExist err then None else Some err
              | None \<Rightarrow> None)
        else None),
       map (\<lambda>j. EvStat (candidate dir (Now e) j)) [1..<(if ?k < 99 then ?k + 2 else 100)])"
    using NewRotateLogger_loop_eq [of 99 1 e "Now e" ?l]
    by (simp add: leading_existing_def Let_def)
  have tg: "target (?l\<lparr>fid := of_nat ?k\<rparr>) = candidate dir (Now e) ?k"
    by (simp add: target_def candidate_def)
  show ?thesis
  proof (cases "OpenFile e (candidate dir (Now e) ?k) create_append")
    case op: None
    from createFile_opens [of e "?l\<lparr>fid := of_nat ?k\<rparr>"] op tg
    have "createFile e (?l\<lparr>fid := of_nat ?k\<rparr>) =
        (?l\<lparr>fid := of_nat ?k, f := Some (candidate dir (Now e) ?k),
            nbytes := (case FileStat e (candidate dir (Now e) ?k) of Some sz \<Rightarrow> sz | None \<Rightarrow> 0)\<rparr>,
         None, [EvOpenFile (candidate dir (Now e) ?k) create_append, EvFileStat (candidate dir (Now e) ?k)])"
      by (simp split: option.splits)
    with None op loop show ?thesis
      by (simp add: NewRotateLogger_def Let_def bucket_key_def split: option.splits)
  next
    case op: (Some err)
    from createFile_fails [of e "?l\<lparr>fid := of_nat ?k\<rparr>"] op tg
    have "createFile e (?l\<lparr>fid := of_nat ?k\<rparr>) =
        (?l\<lparr>fid := of_nat ?k, f := None\<rparr>, Some err, [EvOpenFile (candidate dir (Now e) ?k) create_append])"
      by simp
    with None op loop show ?thesis
      by (simp add: NewRotateLogger_def Let_def bucket_key_def split: option.splits)
  qed
qed


lemma leading_existing_le: "leading_existing e dir now \<le> 99"
  using length_takeWhile_le [of "\<lambda>j. Stat e (candidate dir now j) = None" "[1..<100]"]
  by (simp add: leading_existing_def)

lemma leading_existing_exist:
  assumes "1 \<le> j" and "j \<le> leading_existing e dir now"
  shows "Stat e (candidate dir now j) = None"
proof -
  let ?P = "\<lambda>j. Stat e (candidate dir now j) = None"
  let ?run = "takeWhile ?P [1..<100]"
  from assms have lt: "j - 1 < length ?run"
    by (simp add: leading_existing_def)
  with leading_existing_le [of e dir now] have "j - 1 < 99"
    by (simp add: leading_existing_def)
  with assms(1) have "[1..<100] ! (j - 1) = j"
    by simp
  with takeWhile_nth [OF lt] have "?run ! (j - 1) = j"
    by simp
  with nth_mem [OF lt] have "j \<in> set ?run"
    by simp
  then show ?thesis
    by (rule set_takeWhileD [THEN conjunct2])
qed

lemma leading_existing_stops:
  assumes "leading_existing e dir now < 99"
  shows "Stat e (candidate dir now (Suc (leading_existing e dir now))) \<noteq> None"
proof -
  let ?P = "\<lambda>j. Stat e (candidate dir now j) = None"
  from assms have lt: "length (takeWhile ?P [1..<100]) < length [1..<100]"
    by (simp add: leading_existing_def)
  from nth_length_takeWhile [OF lt] lt show ?thesis
    by (simp add: leading_existing_def)
qed


lemma candidate_13:
  "candidate ''/var/log'' time_13 0 = (''/var/log'', ''2026110313.log'')"
  "candidate ''/var/log'' time_13 (Suc 0) = (''/var/log'', ''2026110313.log.1'')"
  "candidate ''/var/log'' time_13 2 = (''/var/log'', ''2026110313.log.2'')"
  "candidate ''/var/log'' time_13 (Suc (Suc 0)) = (''/var/log'', ''2026110313.log.2'')"
  "candidate ''/var/log'' time_13 3 = (''/var/log'', ''2026110313.log.3'')"
  "candidate ''/var/log'' time_13 99 = (''/var/log'', ''2026110313.log.99'')"
  "candidate ''/var/log'' time_13 100 = (''/var/log'', ''2026110313.log.100'')"
  by (simp_all add: candidate_def segment_def bucket_key_13 fmt_eval)

lemma upt_1_100: "[Suc 0..<100] = Suc 0 # Suc (Suc 0) # [Suc (Suc (Suc 0))..<100]"
proof -
  have "[Suc 0..<100] = Suc 0 # [Suc (Suc 0)..<100]"
    by (rule upt_conv_Cons) simp
  moreover have "[Suc (Suc 0)..<100] = Suc (Suc 0) # [Suc (Suc (Suc 0))..<100]"
    by (rule upt_conv_Cons) simp
  ultimately show ?thesis by simp
qed

lemma takeWhile_True: "takeWhile (\<lambda>j. True) xs = xs"
  by (induction xs) simp_all

lemma leading_existing_gap: "leading_existing env_gap ''/var/log'' time_13 = 1"
  by (simp add: leading_existing_def upt_1_100 candidate_13 env_gap_def env_ok_def)

lemma leading_existing_crowded: "leading_existing env_crowded ''/var/log'' time_13 = 99"
  by (simp add: leading_existing_def env_crowded_def env_ok_def takeWhile_True)

text \<open>
  C6, as the code has it. \<open>NewRotateLogger\<close> creates the directory; it then asks
  for the files of the sequence ids 1, 2, ... of the current bucket in turn, 99 of
  them at most, up to the first that does not exist, and starts at the number of
  files found, that is at the last sequence id of the unbroken run of existing files
  that begins at 1 (0 if there is no file of sequence id 1, and no more than 99). It
  opens that file to create or append and takes the byte counter from the size of the
  open file, or leaves it 0 if the size cannot be read. It returns the error and no
  logger when the directory cannot be created, when one of the files asked for cannot
  be examined for another reason than not existing, and when the file cannot be
  opened.
\<close>

theorem NewRotateLogger_starts_after_unbroken_run:
  "NewRotateLogger fm e dir lv =
     (case MkdirAll e dir of
        Some err \<Rightarrow> (None, Some err, [EvMkdirAll dir])
      | None \<Rightarrow>
          (let k = leading_existing e dir (Now e);
               file = candidate dir (Now e) k;
               stats = map (\<lambda>j. EvStat (candidate dir (Now e) j)) [1..<(if k < 99 then k + 2 else 100)]
           in case (if k < 99
                    then (case Stat e (candidate dir (Now e) (Suc k)) of
                            Some err \<Rightarrow> if IsNotExist err then None else Some err
                          | None \<Rightarrow> None)
                    else None) of
                Some err \<Rightarrow> (None, Some err, EvMkdirAll dir # stats)
              | None \<Rightarrow>
                  (case OpenFile e file create_append of
                     Some err \<Rightarrow>
                       (None, Some err, EvMkdirAll dir # stats @ [EvOpenFile file create_append])
                   | None \<Rightarrow>
                       (Some \<lparr>logDir = dir, level = lv, logSizeLimit = DEFAULT_LOG_FILE_SIZE,
                              flags = LdefaultFlags fm, buf = [], f = Some file,
                              fname = bucket_key (Now e),
                              nbytes = (case FileStat e file of Some sz \<Rightarrow> sz | None \<Rightarrow> 0),
                              fid = of_nat k\<rparr>,
                        None,
                        EvMkdirAll dir # stats @ [EvOpenFile file create_append, EvFileStat file])))) \<and>
   leading_existing e dir (Now e) \<le> 99 \<and>
   (\<forall>j. 1 \<le> j \<and> j \<le> leading_existing e dir (Now e) \<longrightarrow> Stat e (candidate dir (Now e) j) = None) \<and>
   (leading_existing e dir (Now e) < 99 \<longrightarrow>
      Stat e (candidate dir (Now e) (Suc (leading_existing e dir (Now e)))) \<noteq> None) \<and>
   create_append = {O_CREATE, O_WRONLY, O_APPEND}"
  using NewRotateLogger_eq [of fm e dir lv] leading_existing_le [of e dir "Now e"]
    leading_existing_exist [of _ e dir "Now e"] leading_existing_stops [of e dir "Now e"]
  by (simp add: create_append_def)

theorem NewRotateLogger_highest_counterexample:
  "NewRotateLogger plain env_gap ''/var/log'' TRACE =
     (Some \<lparr>logDir = ''/var/log'', level = TRACE, logSizeLimit = DEFAULT_LOG_FILE_SIZE, flags = 0,
            buf = [], f = Some (''/var/log'', ''2026110313.log.1''), fname = ''2026110313.log'',
            nbytes = 7, fid = 1\<rparr>,
      None,
      [EvMkdirAll ''/var/log'', EvStat (''/var/log'', ''2026110313.log.1''),
       EvStat (''/var/log'', ''2026110313.log.2''),
       EvOpenFile (''/var/log'', ''2026110313.log.1'') create_append,
       EvFileStat (''/var/log'', ''2026110313.log.1'')]) \<and>
   Stat env_gap (''/var/log'', ''2026110313.log.3'') = None \<and>
   map_option fid (fst (NewRotateLogger plain env_crowded ''/var/log'' TRACE)) = Some 99 \<and>
   Stat env_crowded (''/var/log'', ''2026110313.log.100'') = None"
proof -
  have now: "Now env_gap = time_13" "Now env_crowded = time_13"
    by (simp_all add: example_defs)
  have a: "NewRotateLogger plain env_gap ''/var/log'' TRACE =
     (Some \<lparr>logDir = ''/var/log'', level = TRACE, logSizeLimit = DEFAULT_LOG_FILE_SIZE, flags = 0,
            buf = [], f = Some (''/var/log'', ''2026110313.log.1''), fname = ''2026110313.log'',
            nbytes = 7, fid = 1\<rparr>,
      None,
      [EvMkdirAll ''/var/log'', EvStat (''/var/log'', ''2026110313.log.1''),
       EvStat (''/var/log'', ''2026110313.log.2''),
       EvOpenFile (''/var/log'', ''2026110313.log.1'') create_append,
       EvFileStat (''/var/log'', ''2026110313.log.1'')])"
    unfolding NewRotateLogger_eq now leading_existing_gap
    by (simp add: candidate_13 bucket_key_13 example_defs IsNotExist_def upt_rec_numeral Let_def)
  have b: "map_option fid (fst (NewRotateLogger plain env_crowded ''/var/log'' TRACE)) = Some 99"
    unfolding NewRotateLogger_eq now leading_existing_crowded
    by (simp add: example_defs Let_def)
  have c: "Stat env_gap (''/var/log'', ''2026110313.log.3'') = None"
    "Stat env_crowded (''/var/log'', ''2026110313.log.100'') = None"
    by (simp_all add: example_defs)
  from a b c show ?thesis by simp
qed


lemma leading_existing_none: "leading_existing (env_no_open time_13) ''/var/log'' time_13 = 0"
  by (simp add: leading_existing_def upt_1_100 env_no_open_def env_ok_def)

theorem NewRotateLogger_starts_after_unbroken_run_witness:
  "leading_existing env_gap ''/var/log'' (Now env_gap) = 1 \<and>
   Stat env_gap (candidate ''/var/log'' (Now env_gap) 1) = None \<and>
   Stat env_gap (candidate ''/var/log'' (Now env_gap) (Suc 1)) \<noteq> None \<and>
   map_option fid (fst (NewRotateLogger plain env_gap ''/var/log'' TRACE)) = Some 1 \<and>
   map_option nbytes (fst (NewRotateLogger plain env_gap ''/var/log'' TRACE)) = Some 7 \<and>
   map_option f (fst (NewRotateLogger plain env_gap ''/var/log'' TRACE)) =
     Some (Some (''/var/log'', ''2026110313.log.1'')) \<and>
   NewRotateLogger plain (env_no_open time_13) ''/var/log'' TRACE =
     (None, Some ErrPermission,
      [EvMkdirAll ''/var/log'', EvStat (''/var/log'', ''2026110313.log.1''),
       EvOpenFile (''/var/log'', ''2026110313.log'') create_append])"
proof -
  have now: "Now env_gap = time_13" "Now (env_no_open time_13) = time_13"
    by (simp_all add: example_defs)
  note th = NewRotateLogger_starts_after_unbroken_run [of plain env_gap "''/var/log''" TRACE]
  note eq = th [THEN conjunct1]
  note run = th [THEN conjunct2, THEN conjunct2, THEN conjunct1, THEN spec, of 1, THEN mp]
  note stop = th [THEN conjunct2, THEN conjunct2, THEN conjunct2, THEN conjunct1, THEN mp]
  note eq2 = NewRotateLogger_starts_after_unbroken_run [of plain "env_no_open time_13" "''/var/log''" TRACE,
      THEN conjunct1]
  have k: "leading_existing env_gap ''/var/log'' (Now env_gap) = 1"
    by (simp add: now leading_existing_gap)
  have a: "Stat env_gap (candidate ''/var/log'' (Now env_gap) 1) = None"
    by (rule run) (simp add: k)
  have "leading_existing env_gap ''/var/log'' (Now env_gap) < 99"
    by (simp add: k)
  from stop [OF this] have b: "Stat env_gap (candidate ''/var/log'' (Now env_gap) (Suc 1)) \<noteq> None"
    unfolding k .
  have c: "NewRotateLogger plain env_gap ''/var/log'' TRACE =
     (Some \<lparr>logDir = ''/var/log'', level = TRACE, logSizeLimit = DEFAULT_LOG_FILE_SIZE, flags = 0,
            buf = [], f = Some (''/var/log'', ''2026110313.log.1''), fname = ''2026110313.log'',
            nbytes = 7, fid = 1\<rparr>,
      None,
      [EvMkdirAll ''/var/log'', EvStat (''/var/log'', ''2026110313.log.1''),
       EvStat (''/var/log'', ''2026110313.log.2''),
       EvOpenFile (''/var/log'', ''2026110313.log.1'') create_append,
       EvFileStat (''/var/log'', ''2026110313.log.1'')])"
    unfolding eq now leading_existing_gap
    by (simp add: candidate_13 bucket_key_13 example_defs IsNotExist_def upt_rec_numeral Let_def)
  have d: "NewRotateLogger plain (env_no_open time_13) ''/var/log'' TRACE =
     (None, Some ErrPermission,
      [EvMkdirAll ''/var/log'', EvStat (''/var/log'', ''2026110313.log.1''),
       EvOpenFile (''/var/log'', ''2026110313.log'') create_append])"
    unfolding eq2 now leading_existing_none
    by (simp add: candidate_13 bucket_key_13 example_defs IsNotExist_def upt_rec_numeral Let_def)
  from k a b d show ?thesis
    by (simp add: c)
qed

subsection \<open>Sequence ids over the life of a logger\<close>

lemma sint_of_nat_32: "k < 2 ^ 31 \<Longrightarrow> sint (of_nat k :: int32) = int k"
proof -
  assume k: "k < 2 ^ 31"
  have "(of_nat k :: int32) = word_of_int (int k)" by simp
  then have "sint (of_nat k :: int32) = signed_take_bit 31 (int k)"
    by (simp only: sint_sbintrunc') simp
  also have "\<dots> = int k"
    using k by (intro signed_take_bit_int_eq_self) simp_all
  finally show ?thesis .
qed

lemma NewRotateLogger_returns:
  assumes "NewRotateLogger fm e dir lv = (Some l, r, ev)"
  shows "0 \<le> sint (fid l) \<and> sint (fid l) \<le> 99 \<and> f l \<noteq> None \<and> r = None \<and>
         logDir l = dir \<and> fname l = bucket_key (Now e) \<and> logSizeLimit l = DEFAULT_LOG_FILE_SIZE"
proof -
  have k: "leading_existing e dir (Now e) < 2 ^ 31"
    using leading_existing_le [of e dir "Now e"] by simp
  from assms show ?thesis
    unfolding NewRotateLogger_eq
    using leading_existing_le [of e dir "Now e"] sint_of_nat_32 [OF k]
    by (auto simp: Let_def split: option.splits if_splits)
qed

lemma Output_resets_only_on_new_bucket:
  assumes "0 \<le> sint (fid l)" and "fid l \<noteq> 0" and "fid (state_after (Output fm e d s l)) = 0"
  shows "bucket_key (Now e) \<noteq> fname l"
proof
  assume k: "bucket_key (Now e) = fname l"
  show False
  proof (cases "limit_reached l")
    case True
    with k assms(3) have "fid l + 1 = 0" by (simp add: Output_fid)
    then have "fid l = - 1" by (simp add: eq_neg_iff_add_eq_0)
    with assms(1) show False by simp
  next
    case False
    with k assms(2,3) show False by (simp add: Output_fid)
  qed
qed


lemma NewRotateLogger_gap:
  "NewRotateLogger plain env_gap ''/var/log'' TRACE =
     (Some \<lparr>logDir = ''/var/log'', level = TRACE, logSizeLimit = DEFAULT_LOG_FILE_SIZE, flags = 0,
            buf = [], f = Some (''/var/log'', ''2026110313.log.1''), fname = ''2026110313.log'',
            nbytes = 7, fid = 1\<rparr>,
      None,
      [EvMkdirAll ''/var/log'', EvStat (''/var/log'', ''2026110313.log.1''),
       EvStat (''/var/log'', ''2026110313.log.2''),
       EvOpenFile (''/var/log'', ''2026110313.log.1'') create_append,
       EvFileStat (''/var/log'', ''2026110313.log.1'')])"
proof -
  have now: "Now env_gap = time_13"
    by (simp add: example_defs)
  show ?thesis
    unfolding NewRotateLogger_eq now leading_existing_gap
    by (simp add: candidate_13 bucket_key_13 example_defs IsNotExist_def upt_rec_numeral Let_def)
qed




subsection \<open>A roll that fails\<close>

lemma NewRotateLogger_closed_counts_nothing:
  "NewRotateLogger fm e dir lv = (Some l, r, ev) \<Longrightarrow> closed_counts_nothing l"
  using NewRotateLogger_returns [of fm e dir lv l r ev] by (auto simp: closed_counts_nothing_def)

lemma Output_closed_counts_nothing:
  assumes "closed_counts_nothing l"
  shows "closed_counts_nothing (state_after (Output fm e d s l))"
proof (cases rule: Output_cases [of e l fm d s])
  case (fails l1 err ev)
  from rotateFile_result [OF fails(1)] assms have "nbytes l1 = 0" by simp
  with fails show ?thesis by (simp add: closed_counts_nothing_def)
next
  case (writes l1 ev h)
  then show ?thesis by (simp add: closed_counts_nothing_def)
qed

lemma setters_closed_counts_nothing:
  "closed_counts_nothing (SetLogSizeLimit n l) = closed_counts_nothing l"
  "closed_counts_nothing (SetLogLevel lv l) = closed_counts_nothing l"
  by (simp_all add: SetLogSizeLimit_def SetLogLevel_def)

lemma closed_not_limit_reached: "closed_counts_nothing l \<Longrightarrow> f l = None \<Longrightarrow> \<not> limit_reached l"
  by (simp add: closed_counts_nothing_def limit_reached_def)

lemma Output_retries:
  assumes "closed_counts_nothing l" and "f l = None" and "bucket_key (Now e) = fname l"
  shows "opened_files (events_of (Output fm e d s l)) = [target l] \<and>
         fname (state_after (Output fm e d s l)) = fname l \<and>
         fid (state_after (Output fm e d s l)) = fid l"
proof -
  from closed_not_limit_reached [OF assms(1,2)] have nl: "\<not> limit_reached l" .
  from assms(3) nl have id: "fname (state_after (Output fm e d s l)) = fname l"
    "fid (state_after (Output fm e d s l)) = fid l"
    by (simp_all add: Output_fid)
  then have "target (state_after (Output fm e d s l)) = target l"
    by (simp add: target_def)
  with Output_step [of fm e d s l] assms(2) id show ?thesis
    by simp
qed

lemma Output_moves_to_new_bucket:
  assumes "bucket_key (Now e) \<noteq> fname l"
  shows "opened_files (events_of (Output fm e d s l)) = [segment (logDir l) (bucket_key (Now e)) 0]"
proof -
  from assms have "target (state_after (Output fm e d s l)) = segment (logDir l) (bucket_key (Now e)) 0"
    by (simp add: target_def Output_fid)
  with Output_step [of fm e d s l] assms show ?thesis
    by simp
qed

text \<open>
  C4, as the code has it. Take a logger in which no open file means a zero byte
  counter, as in every logger that comes from the constructor and the methods. If the
  rotation step of an \<open>Output\<close> call returns an error, the error is that of opening
  the file of the bucket key and sequence id the logger now has; \<open>Output\<close> returns
  it, having written nothing and left the buffer as it was; the logger has no open
  file. The next \<open>Output\<close> call opens that same file again if its time lies in the
  same bucket; if its time lies in another bucket, it opens the first file of that
  bucket instead.
\<close>

theorem failed_roll_is_retried_in_its_bucket:
  assumes "closed_counts_nothing l" and "rotateFile e (Now e) l = (l1, Some err, ev)"
  shows "Output fm e d s l = (l1, Some err, ev) \<and> written ev = [] \<and> buf l1 = buf l \<and>
         f l1 = None \<and> closed_counts_nothing l1 \<and>
         OpenFile e (target l1) create_append = Some err \<and>
         opened_files ev = [target l1] \<and> last ev = EvOpenFile (target l1) create_append \<and>
         (\<forall>fm2 e2 d2 s2. bucket_key (Now e2) = fname l1 \<longrightarrow>
            opened_files (events_of (Output fm2 e2 d2 s2 l1)) = [target l1] \<and>
            fname (state_after (Output fm2 e2 d2 s2 l1)) = fname l1 \<and>
            fid (state_after (Output fm2 e2 d2 s2 l1)) = fid l1) \<and>
         (\<forall>fm2 e2 d2 s2. bucket_key (Now e2) \<noteq> fname l1 \<longrightarrow>
            opened_files (events_of (Output fm2 e2 d2 s2 l1)) =
              [segment (logDir l1) (bucket_key (Now e2)) 0])"
proof -
  from rotateFile_result [OF assms(2)] assms(1)
  have r: "written ev = []" "buf l1 = buf l" "f l1 = None" "nbytes l1 = 0"
    "OpenFile e (target l1) create_append = Some err" "opened_files ev = [target l1]"
    "last ev = EvOpenFile (target l1) create_append"
    by simp_all
  from r(3,4) have inv: "closed_counts_nothing l1"
    by (simp add: closed_counts_nothing_def)
  from Output_rotate_fails [OF assms(2)] r inv Output_retries [OF inv r(3)]
    Output_moves_to_new_bucket [of _ l1]
  show ?thesis
    by blast
qed

lemma rotateFile_fails_13:
  "rotateFile (env_no_open time_13) (Now (env_no_open time_13)) logger_13_full =
     (logger_13_full\<lparr>fid := 1, nbytes := 0, f := None\<rparr>, Some ErrPermission,
      [EvClose (''/var/log'', ''2026110313.log''),
       EvOpenFile (''/var/log'', ''2026110313.log.1'') create_append])"
proof -
  have k: "bucket_key (Now (env_no_open time_13)) = fname logger_13_full"
    by (simp add: example_defs bucket_key_13)
  have full: "limit_reached logger_13_full"
    by (simp add: example_defs limit_reached_def)
  have tg: "target (logger_13_full\<lparr>fid := fid logger_13_full + 1\<rparr>) = (''/var/log'', ''2026110313.log.1'')"
    by (simp add: target_def segment_def example_defs fmt_eval)
  have "OpenFile (env_no_open time_13) (target (logger_13_full\<lparr>fid := fid logger_13_full + 1\<rparr>)) create_append
      = Some ErrPermission"
    by (simp add: example_defs)
  from reopen_fails [OF this] show ?thesis
    unfolding rotateFile_next_sequence [OF k full] tg
    by (simp add: example_defs)
qed

lemma target_failed_13:
  "target (logger_13_full\<lparr>fid := 1, nbytes := 0, f := None\<rparr>) = (''/var/log'', ''2026110313.log.1'')"
  "fname (logger_13_full\<lparr>fid := 1, nbytes := 0, f := None\<rparr>) = ''2026110313.log''"
  "logDir (logger_13_full\<lparr>fid := 1, nbytes := 0, f := None\<rparr>) = ''/var/log''"
  "target (logger_13_full\<lparr>fid := 1\<rparr>) = (''/var/log'', ''2026110313.log.1'')"
  by (simp_all add: target_def segment_def example_defs fmt_eval)

theorem failed_roll_not_retried_counterexample:
  "returned (Output plain (env_no_open time_13) 2 ''x'' logger_13_full) = Some ErrPermission \<and>
   opened_files (events_of (Output plain (env_no_open time_13) 2 ''x'' logger_13_full)) =
     [(''/var/log'', ''2026110313.log.1'')] \<and>
   f (state_after (Output plain (env_no_open time_13) 2 ''x'' logger_13_full)) = None \<and>
   opened_files (events_of (Output plain (env_ok time_14) 2 ''y''
       (state_after (Output plain (env_no_open time_13) 2 ''x'' logger_13_full)))) =
     [(''/var/log'', ''2026110314.log'')]"
proof -
  let ?l1 = "logger_13_full\<lparr>fid := 1, nbytes := 0, f := None\<rparr>"
  note out = Output_rotate_fails [OF rotateFile_fails_13, of plain 2 "''x''"]
  have "bucket_key (Now (env_ok time_14)) \<noteq> fname ?l1"
    by (simp add: target_failed_13 env_ok_def bucket_key_14)
  from Output_moves_to_new_bucket [OF this, of plain 2 "''y''"]
  have "opened_files (events_of (Output plain (env_ok time_14) 2 ''y'' ?l1)) = [(''/var/log'', ''2026110314.log'')]"
    by (simp add: target_failed_13 env_ok_def bucket_key_14 segment_def)
  with out show ?thesis
    by simp
qed

theorem failed_roll_is_retried_in_its_bucket_witness:
  "closed_counts_nothing logger_13_full \<and>
   rotateFile (env_no_open time_13) (Now (env_no_open time_13)) logger_13_full =
     (logger_13_full\<lparr>fid := 1, nbytes := 0, f := None\<rparr>, Some ErrPermission,
      [EvClose (''/var/log'', ''2026110313.log''),
       EvOpenFile (''/var/log'', ''2026110313.log.1'') create_append]) \<and>
   Output plain (env_no_open time_13) 2 ''x'' logger_13_full =
     (logger_13_full\<lparr>fid := 1, nbytes := 0, f := None\<rparr>, Some ErrPermission,
      [EvClose (''/var/log'', ''2026110313.log''),
       EvOpenFile (''/var/log'', ''2026110313.log.1'') create_append]) \<and>
   bucket_key (Now (env_ok time_13)) = fname (logger_13_full\<lparr>fid := 1, nbytes := 0, f := None\<rparr>) \<and>
   opened_files (events_of (Output plain (env_ok time_13) 2 ''y''
       (logger_13_full\<lparr>fid := 1, nbytes := 0, f := None\<rparr>))) = [(''/var/log'', ''2026110313.log.1'')] \<and>
   bucket_key (Now (env_ok time_14)) \<noteq> fname (logger_13_full\<lparr>fid := 1, nbytes := 0, f := None\<rparr>) \<and>
   opened_files (events_of (Output plain (env_ok time_14) 2 ''y''
       (logger_13_full\<lparr>fid := 1, nbytes := 0, f := None\<rparr>))) = [(''/var/log'', ''2026110314.log'')]"
proof -
  let ?l1 = "logger_13_full\<lparr>fid := 1, nbytes := 0, f := None\<rparr>"
  have inv: "closed_counts_nothing logger_13_full"
    by (simp add: closed_counts_nothing_def example_defs)
  note th = failed_roll_is_retried_in_its_bucket [OF inv rotateFile_fails_13, of plain 2 "''x''"]
  note out = th [THEN conjunct1]
  note again = th [THEN conjunct2, THEN conjunct2, THEN conjunct2, THEN conjunct2, THEN conjunct2,
      THEN conjunct2, THEN conjunct2, THEN conjunct2, THEN conjunct1, THEN spec, THEN spec, THEN spec,
      THEN spec, THEN mp]
  note other = th [THEN conjunct2, THEN conjunct2, THEN conjunct2, THEN conjunct2, THEN conjunct2,
      THEN conjunct2, THEN conjunct2, THEN conjunct2, THEN conjunct2, THEN spec, THEN spec, THEN spec,
      THEN spec, THEN mp]
  have k13: "bucket_key (Now (env_ok time_13)) = fname ?l1"
    by (simp add: target_failed_13 env_ok_def bucket_key_13)
  have k14: "bucket_key (Now (env_ok time_14)) \<noteq> fname ?l1"
    by (simp add: target_failed_13 env_ok_def bucket_key_14)
  from again [OF k13, of plain 2 "''y''"]
  have a: "opened_files (events_of (Output plain (env_ok time_13) 2 ''y'' ?l1)) = [(''/var/log'', ''2026110313.log.1'')]"
    by (simp add: target_failed_13)
  from other [OF k14, of plain 2 "''y''"]
  have b: "opened_files (events_of (Output plain (env_ok time_14) 2 ''y'' ?l1)) = [(''/var/log'', ''2026110314.log'')]"
    by (simp add: target_failed_13 env_ok_def bucket_key_14 segment_def)
  from inv rotateFile_fails_13 out k13 a k14 b show ?thesis
    by simp
qed

subsection \<open>The byte counter\<close>

lemma bucket_key_eq:
  "Sprintf_0d 4 (Year t) @ Sprintf_0d 2 (int (Month t)) @ Sprintf_0d 2 (int (Day t)) @
   Sprintf_0d 2 (int (Hour t)) @ ''.log'' = bucket_key t"
  by (simp add: bucket_key_def getLogFileName_def)

lemma loggerT_Output_eq:
  "loggerT_Output e d s l =
     (case loggerT_roll e (writer_header e d @ s @ line_end s) (l\<lparr>bufT := writer_header e d @ s @ line_end s\<rparr>) of
        (l1, Some err, ev) \<Rightarrow> (l1, Some err, ev)
      | (l1, None, ev) \<Rightarrow>
          (case outT l1 of
             None \<Rightarrow> (l1, Some PanicNilPointer, ev)
           | Some h \<Rightarrow>
               (l1\<lparr>nbytesT := nbytesT l1 + of_nat (length (writer_header e d @ s @ line_end s))\<rparr>,
                snd (BufWrite e h (writer_header e d @ s @ line_end s)),
                ev @ [EvBufWrite h (writer_header e d @ s @ line_end s)])))"
proof -
  let ?B = "writer_header e d @ s @ line_end s"
  have c: "(case Caller e d of None \<Rightarrow> (''????'', 0, ''unknown'') | Some (file, line, fn) \<Rightarrow> (file, line, fn)) =
      caller_or_placeholder e d"
    by (simp add: caller_or_placeholder_def split: option.splits)
  obtain p ln fn where cp: "caller_or_placeholder e d = (p, ln, fn)"
    by (cases "caller_or_placeholder e d") auto
  have B: "terminated (formatHeader [] (Now e) p ln fn @ s) s = ?B"
    by (simp add: writer_header_def cp line_end_terminated)
  obtain l1 r ev where roll: "loggerT_roll e ?B (l\<lparr>bufT := ?B\<rparr>) = (l1, r, ev)"
    by (cases "loggerT_roll e ?B (l\<lparr>bufT := ?B\<rparr>)") auto
  note step = roll [unfolded loggerT_roll_def]
  show ?thesis
    unfolding loggerT_Output_def c cp Let_def prod.case B bucket_key_eq step roll
    by (simp split: option.splits prod.splits)
qed

lemma loggerT_Output_adds_length:
  assumes "loggerT_roll e (writer_header e d @ s @ line_end s)
             (t\<lparr>bufT := writer_header e d @ s @ line_end s\<rparr>) = (t1, None, ev)"
    and "outT t1 = Some h"
  shows "loggerT_Output e d s t =
           (t1\<lparr>nbytesT := nbytesT t1 + of_nat (length (writer_header e d @ s @ line_end s))\<rparr>,
            snd (BufWrite e h (writer_header e d @ s @ line_end s)),
            ev @ [EvBufWrite h (writer_header e d @ s @ line_end s)])"
  using assms by (simp add: loggerT_Output_eq)


lemma loggerT_roll_global_13:
  "loggerT_roll (env_short_write time_13) b (global_13\<lparr>bufT := b\<rparr>) =
     (global_13\<lparr>bufT := b\<rparr>, None, [])"
  if "length b < 1000" for b
proof -
  have k: "bucket_key (Now (env_short_write time_13)) = ''2026110313.log''"
    by (simp add: example_defs bucket_key_13)
  have "sint (10 + of_nat (length b) :: int64) = 10 + int (length b)"
    using that sint_add_of_nat_64 [of 10 "length b"] by simp
  then have "quo (sint (nbytesT (global_13\<lparr>bufT := b\<rparr>) + of_nat (length b))) 1024 \<le> 0"
    using that by (simp add: global_13_def quo_def)
  then show ?thesis
    by (simp add: loggerT_roll_def k global_13_def)
qed


lemma record_13: "writer_header (env_short_write time_13) 3 @ ''x'' @ line_end ''x'' =
    ''20261103 13:05:09.123456|main.go:42|main.main|x'' @ [newline]"
proof -
  have "writer_header (env_short_write time_13) 3 = ''20261103 13:05:09.123456|main.go:42|main.main|''"
    by (simp add: writer_header_def caller_or_placeholder_def example_defs formatHeader_def
        time_13_def fmt_eval)
  then show ?thesis
    by (simp add: line_end_def newline_def)
qed

lemma Output_adds_reported_count:
  assumes "rotateFile e (Now e) l = (l1, None, ev)"
  shows "\<exists>h b n werr.
           f l1 = Some h \<and> b = header_of fm e d (flags l) @ s @ line_end s \<and>
           FileWrite e h b = (n, werr) \<and>
           Output fm e d s l = (l1\<lparr>buf := b, nbytes := nbytes l1 + of_nat n\<rparr>, werr, ev @ [EvWrite h b]) \<and>
           (sint (nbytes l1) + int n < 2 ^ 63 \<longrightarrow>
              sint (nbytes (state_after (Output fm e d s l))) = sint (nbytes l1) + int n)"
proof -
  from rotateFile_result [OF assms] obtain h where h: "f l1 = Some h" and fl: "flags l1 = flags l"
    by auto
  obtain n werr where w: "FileWrite e h (header_of fm e d (flags l) @ s @ line_end s) = (n, werr)"
    by (cases "FileWrite e h (header_of fm e d (flags l) @ s @ line_end s)") auto
  from Output_writes [OF assms h, of fm d s] w fl
  have out: "Output fm e d s l =
      (l1\<lparr>buf := header_of fm e d (flags l) @ s @ line_end s, nbytes := nbytes l1 + of_nat n\<rparr>, werr,
       ev @ [EvWrite h (header_of fm e d (flags l) @ s @ line_end s)])"
    by simp
  with h w show ?thesis
    by (simp add: sint_add_of_nat_64)
qed




end
